theory Spec2Isabelle
  imports Main "HOL-Library.Word"
begin

unbundle bit_operations_syntax

section \<open>Data model of udp-balancer.c\<close>

type_synonym byte = "8 word"

text \<open>\<^verbatim>\<open>struct sockaddr_in\<close>: address family, port and IPv4 address. The port and the
  address are kept as numbers; the byte order of their storage is not modelled.\<close>

record sockaddr_in =
  sin_family :: "16 word"
  sin_port :: "16 word"
  sin_addr :: "32 word"

text \<open>The global \<^verbatim>\<open>conf\<close>. The array \<^verbatim>\<open>remotes[256]\<close> is only ever indexed by a
  \<^verbatim>\<open>uint8_t\<close>, so it is a function from 8-bit words.\<close>

record conf =
  handle_gelf :: bool
  send_buffer :: "32 word"
  recv_buffer :: "32 word"
  nremotes :: "8 word"
  local :: sockaddr_in
  remotes :: "8 word \<Rightarrow> sockaddr_in"

section \<open>crc8\<close>

text \<open>One pass of the inner \<^verbatim>\<open>for\<close> loop body: shift left (truncated to 8 bits by the
  assignment to a \<^verbatim>\<open>uint8_t\<close>), then test bit 7 of the shifted value.\<close>

definition crc8_step :: "byte \<Rightarrow> byte" where
  "crc8_step crc =
     (let crc1 = push_bit 1 crc in
      if crc1 AND 0x80 \<noteq> 0 then crc1 XOR 0x81 else crc1)"

text \<open>\<^verbatim>\<open>for (bit = 8; bit > 0; bit--)\<close>\<close>

fun crc8_bits :: "nat \<Rightarrow> byte \<Rightarrow> byte" where
  "crc8_bits 0 crc = crc"
| "crc8_bits (Suc n) crc = crc8_bits n (crc8_step crc)"

text \<open>\<^verbatim>\<open>while (len--)\<close> over the \<^verbatim>\<open>len\<close> bytes at \<^verbatim>\<open>msg\<close>.\<close>

fun crc8_loop :: "byte \<Rightarrow> byte list \<Rightarrow> byte" where
  "crc8_loop crc [] = crc"
| "crc8_loop crc (b # msg) = crc8_loop (crc8_bits 8 (crc XOR b)) msg"

definition crc8 :: "byte list \<Rightarrow> byte" where
  "crc8 msg = crc8_loop 0 msg"

subsection \<open>The reference CRC-8 of the specification\<close>

text \<open>The specification's words: CRC-8 with a generator polynomial, an initial value, no
  reflection of input or output, most significant bit first. Each byte is XORed into the
  register; then, eight times, the register is shifted left by one and the polynomial is
  XORed in when the bit shifted out was set.\<close>

definition crc8_ref_step :: "byte \<Rightarrow> byte \<Rightarrow> byte" where
  "crc8_ref_step poly crc =
     (if crc AND 0x80 \<noteq> 0 then push_bit 1 crc XOR poly else push_bit 1 crc)"

fun crc8_ref_bits :: "byte \<Rightarrow> nat \<Rightarrow> byte \<Rightarrow> byte" where
  "crc8_ref_bits poly 0 crc = crc"
| "crc8_ref_bits poly (Suc n) crc = crc8_ref_bits poly n (crc8_ref_step poly crc)"

fun crc8_ref_loop :: "byte \<Rightarrow> byte \<Rightarrow> byte list \<Rightarrow> byte" where
  "crc8_ref_loop poly crc [] = crc"
| "crc8_ref_loop poly crc (b # msg) =
     crc8_ref_loop poly (crc8_ref_bits poly 8 (crc XOR b)) msg"

definition crc8_reference :: "byte list \<Rightarrow> byte" where
  "crc8_reference msg = crc8_ref_loop 0x81 0x00 msg"

section \<open>toaddr\<close>

text \<open>\<^verbatim>\<open>toaddr\<close> reads \<^verbatim>\<open>conf\<close> and the global counter \<^verbatim>\<open>seqnr\<close>, and reads the
  bytes 0 to 9 at \<^verbatim>\<open>payload\<close>. The model returns the index \<^verbatim>\<open>remote\<close> (the C function
  returns the address of \<^verbatim>\<open>conf.remotes[remote]\<close>) together with the new value of
  \<^verbatim>\<open>seqnr\<close>. Two behaviours are undefined in C and are the value \<open>None\<close> here: the remainder
  by \<^verbatim>\<open>conf.nremotes = 0\<close>, and a read beyond the end of the payload. \<^verbatim>\<open>memcmp\<close> reads two
  bytes and is called only when \<^verbatim>\<open>conf.handle_gelf\<close> is set; \<^verbatim>\<open>crc8\<close> reads the bytes 2 to 9
  and is called only when the magic is there.

  \<^verbatim>\<open>crc8(...) % conf.nremotes\<close> is computed on \<^verbatim>\<open>int\<close> from two promoted \<^verbatim>\<open>uint8_t\<close> values,
  which is the unsigned remainder on 8-bit words. \<^verbatim>\<open>seqnr++ % conf.nremotes\<close> is computed on
  \<^verbatim>\<open>uint64_t\<close> and truncated to \<^verbatim>\<open>uint8_t\<close> by the assignment.\<close>

definition gelf_magic :: "byte list" where
  "gelf_magic = [0x1E, 0x0F]"

definition toaddr :: "conf \<Rightarrow> 64 word \<Rightarrow> byte list \<Rightarrow> (8 word \<times> 64 word) option" where
  "toaddr c seqnr payload =
     (if handle_gelf c \<and> length payload < 2 then None
      else if handle_gelf c \<and> take 2 payload = gelf_magic
      then (if length payload < 10 \<or> nremotes c = 0 then None
            else Some (crc8 (take 8 (drop 2 payload)) mod nremotes c, seqnr))
      else (if nremotes c = 0 then None
            else Some (ucast (seqnr mod ucast (nremotes c)), seqnr + 1)))"

section \<open>Configuration file\<close>

text \<open>The two libc functions the parser calls are not part of the repository and are
  parameters of the model. \<open>inet_pton s\<close> is the IPv4 address that
  \<^verbatim>\<open>inet_pton(AF_INET, s, ...)\<close> stores, or \<open>None\<close> when it returns 0.
  \<open>strtoul s base\<close> is the pair of the \<^verbatim>\<open>unsigned long\<close> result and the number of
  characters consumed (the offset of the end pointer \<^verbatim>\<open>e\<close>).\<close>

record libc =
  inet_pton :: "string \<Rightarrow> 32 word option"
  strtoul :: "string \<Rightarrow> nat \<Rightarrow> nat \<times> nat"

definition AF_INET :: "16 word" where
  "AF_INET = 2"

definition DEFAULT_CONFIG :: string where
  "DEFAULT_CONFIG = ''/etc/udp-balancer.conf''"

definition BUFFER_SIZE :: nat where
  "BUFFER_SIZE = 65536"

text \<open>The delimiter set \<^verbatim>\<open>" \t\n"\<close>.\<close>

definition blanks :: string where
  "blanks = [CHR '' '', CHR 0x09, CHR 0x0A]"

text \<open>A C string ends at its first NUL character.\<close>

definition c_str :: "string \<Rightarrow> string" where
  "c_str s = takeWhile (\<lambda>c. c \<noteq> CHR 0x00) s"

text \<open>\<^verbatim>\<open>strtok\<close>: skip leading delimiters; no token if the string ends there. Otherwise the
  token runs to the next delimiter, which is overwritten by NUL, and scanning resumes after
  it. The result is the token and the saved position (the remaining string), which is
  the argument of the following \<^verbatim>\<open>strtok(NULL, ...)\<close>.\<close>

definition strtok :: "string \<Rightarrow> string \<Rightarrow> string option \<times> string" where
  "strtok s delim =
     (case dropWhile (\<lambda>c. c \<in> set delim) s of
        [] \<Rightarrow> (None, [])
      | t # ts \<Rightarrow>
          (Some (takeWhile (\<lambda>c. c \<notin> set delim) (t # ts)),
           drop 1 (dropWhile (\<lambda>c. c \<notin> set delim) (t # ts))))"

text \<open>\<^verbatim>\<open>parse_addr\<close> returns 0 or -1 and the updated \<^verbatim>\<open>*si\<close>. The value of
  \<^verbatim>\<open>strtoul\<close> is truncated to \<^verbatim>\<open>unsigned int\<close> by the assignment to \<^verbatim>\<open>n\<close>.\<close>

definition parse_addr :: "libc \<Rightarrow> string \<Rightarrow> sockaddr_in \<Rightarrow> int \<times> sockaddr_in" where
  "parse_addr L addr si =
     (case strtok addr '':'' of
        (None, _) \<Rightarrow> (- 1, si)
      | (Some ptr, save) \<Rightarrow>
          (case inet_pton L ptr of
             None \<Rightarrow> (- 1, si)
           | Some a \<Rightarrow>
               (let si1 = si\<lparr>sin_addr := a\<rparr> in
                case strtok save blanks of
                  (None, _) \<Rightarrow> (- 1, si1)
                | (Some ptr2, _) \<Rightarrow>
                    (let (v, used) = strtoul L ptr2 10;
                         n = (word_of_nat v :: 32 word)
                     in if used = 0 \<or> used < length ptr2 \<or> 65535 < n then (- 1, si1)
                        else (0, si1\<lparr>sin_port := ucast n, sin_family := AF_INET\<rparr>)))))"

text \<open>What the program writes to \<^verbatim>\<open>stderr\<close>: one constructor for each \<^verbatim>\<open>fprintf\<close>, with
  the line number, keyword or address it prints. The text of \<^verbatim>\<open>strerror(errno)\<close> is not
  modelled.\<close>

datatype message =
    Unable_to_open string
  | Invalid_listen int
  | Invalid_upstream int
  | Invalid_send_buffer int
  | Invalid_recv_buffer int
  | Unknown_keyword string int
  | Failed_to_parse
  | No_listen_address
  | No_upstream_addresses
  | Socket_error
  | Setsockopt_sndbuf_error
  | Setsockopt_rcvbuf_error
  | Bind_error sockaddr_in
  | Recvfrom_error sockaddr_in
  | Bad_packet sockaddr_in
  | Sendto_error sockaddr_in

text \<open>The body of the \<^verbatim>\<open>while (fgets(...))\<close> loop of \<^verbatim>\<open>parse_config\<close> for one line, with
  \<^verbatim>\<open>ln\<close> already incremented. \<open>Some m\<close> is the message printed before \<^verbatim>\<open>return -1\<close>;
  \<open>None\<close> continues with the next line. In the \<^verbatim>\<open>upstream\<close> branch the argument
  \<^verbatim>\<open>&conf.remotes[conf.nremotes++]\<close> is evaluated, and the 8-bit counter incremented, before
  \<^verbatim>\<open>parse_addr\<close> runs, and only when a token follows the keyword.\<close>

definition parse_line :: "libc \<Rightarrow> int \<Rightarrow> conf \<Rightarrow> string \<Rightarrow> message option \<times> conf" where
  "parse_line L ln c line =
     (case strtok (c_str line) blanks of
        (None, _) \<Rightarrow> (None, c)
      | (Some kw, save) \<Rightarrow>
          if kw = ''listen'' then
            (case strtok save blanks of
               (None, _) \<Rightarrow> (Some (Invalid_listen ln), c)
             | (Some ptr, _) \<Rightarrow>
                 (let (r, si) = parse_addr L ptr (local c);
                      c1 = c\<lparr>local := si\<rparr>
                  in if r = 0 then (None, c1) else (Some (Invalid_listen ln), c1)))
          else if kw = ''upstream'' then
            (case strtok save blanks of
               (None, _) \<Rightarrow> (Some (Invalid_upstream ln), c)
             | (Some ptr, _) \<Rightarrow>
                 (let i = nremotes c;
                      c1 = c\<lparr>nremotes := i + 1\<rparr>;
                      (r, si) = parse_addr L ptr (remotes c1 i);
                      c2 = c1\<lparr>remotes := (remotes c1)(i := si)\<rparr>
                  in if r = 0 then (None, c2) else (Some (Invalid_upstream ln), c2)))
          else if kw = ''handle-gelf'' then (None, c\<lparr>handle_gelf := True\<rparr>)
          else if kw = ''send-buffer'' then
            (case strtok save blanks of
               (None, _) \<Rightarrow> (Some (Invalid_send_buffer ln), c\<lparr>send_buffer := 0\<rparr>)
             | (Some ptr, _) \<Rightarrow>
                 (let (v, used) = strtoul L ptr 0;
                      c1 = c\<lparr>send_buffer := word_of_nat v\<rparr>
                  in if used = 0 \<or> used < length ptr \<or> send_buffer c1 = 0
                     then (Some (Invalid_send_buffer ln), c1) else (None, c1)))
          else if kw = ''recv-buffer'' then
            (case strtok save blanks of
               (None, _) \<Rightarrow> (Some (Invalid_recv_buffer ln), c\<lparr>recv_buffer := 0\<rparr>)
             | (Some ptr, _) \<Rightarrow>
                 (let (v, used) = strtoul L ptr 0;
                      c1 = c\<lparr>recv_buffer := word_of_nat v\<rparr>
                  in if used = 0 \<or> used < length ptr \<or> recv_buffer c1 = 0
                     then (Some (Invalid_recv_buffer ln), c1) else (None, c1)))
          else (Some (Unknown_keyword kw ln), c))"

text \<open>The buffers that successive calls \<^verbatim>\<open>fgets(line, 128, fp)\<close> deliver for a file: each
  holds at most 127 characters and ends after a newline. \<open>acc\<close> is the part of the
  current buffer read so far.\<close>

fun fgets_lines :: "string \<Rightarrow> string \<Rightarrow> string list" where
  "fgets_lines acc [] = (if acc = [] then [] else [acc])"
| "fgets_lines acc (ch # s) =
     (if ch = CHR 0x0A \<or> length acc = 126 then (acc @ [ch]) # fgets_lines [] s
      else fgets_lines (acc @ [ch]) s)"

fun parse_lines :: "libc \<Rightarrow> int \<Rightarrow> conf \<Rightarrow> string list \<Rightarrow> message option \<times> conf" where
  "parse_lines L ln c [] = (None, c)"
| "parse_lines L ln c (line # rest) =
     (case parse_line L (ln + 1) c line of
        (Some m, c1) \<Rightarrow> (Some m, c1)
      | (None, c1) \<Rightarrow> parse_lines L (ln + 1) c1 rest)"

text \<open>\<^verbatim>\<open>parse_config\<close>: \<open>fopen name\<close> is the content of the file, or \<open>None\<close> when it cannot
  be opened. The result is the return value, the configuration and the messages printed.\<close>

definition parse_config ::
  "libc \<Rightarrow> (string \<Rightarrow> string option) \<Rightarrow> string \<Rightarrow> conf \<Rightarrow> int \<times> conf \<times> message list" where
  "parse_config L fopen filename c =
     (case fopen filename of
        None \<Rightarrow> (- 1, c, [Unable_to_open filename])
      | Some content \<Rightarrow>
          (case parse_lines L 0 c (fgets_lines [] content) of
             (Some m, c1) \<Rightarrow> (- 1, c1, [m])
           | (None, c1) \<Rightarrow> (0, c1, [])))"

text \<open>The zero-initialised static \<^verbatim>\<open>conf\<close>.\<close>

definition zero_addr :: sockaddr_in where
  "zero_addr = \<lparr>sin_family = 0, sin_port = 0, sin_addr = 0\<rparr>"

definition conf0 :: conf where
  "conf0 = \<lparr>handle_gelf = False, send_buffer = 0, recv_buffer = 0, nremotes = 0,
            local = zero_addr, remotes = (\<lambda>_. zero_addr)\<rparr>"

section \<open>main\<close>

text \<open>What the process does to the outside: a line on \<^verbatim>\<open>stderr\<close>, a call of \<^verbatim>\<open>sendto\<close>,
  or \<^verbatim>\<open>close(sock)\<close>. \<^verbatim>\<open>sendto\<close> is called with the pointer \<^verbatim>\<open>sa\<close> into \<^verbatim>\<open>conf.remotes\<close>,
  which is modelled by the index it points at, and with the first \<^verbatim>\<open>recvlen\<close> bytes of
  \<^verbatim>\<open>pkt\<close>.\<close>

datatype effect =
    Stderr message
  | Sendto "8 word" "byte list"
  | Close_sock

text \<open>The variables of \<^verbatim>\<open>main\<close> that live across iterations, the global \<^verbatim>\<open>seqnr\<close> and
  the effects so far.\<close>

record world =
  seqnr :: "64 word"
  pkt :: "byte list"
  from_addr :: sockaddr_in
  out :: "effect list"

text \<open>What the outside answers in one iteration of the loop: \<^verbatim>\<open>recvfrom\<close> fails, or it
  delivers a datagram with the sender's address; \<open>Packet\<close> also carries the value that
  \<^verbatim>\<open>sendto\<close> returns if the iteration calls it.\<close>

datatype io_event =
    Recv_error
  | Packet sockaddr_in "byte list" int

text \<open>A successful \<^verbatim>\<open>recvfrom(sock, pkt, sizeof(pkt), ...)\<close> receives at most
  \<^verbatim>\<open>BUFFER_SIZE\<close> bytes of the datagram, overwrites the start of \<^verbatim>\<open>pkt\<close> with them and
  returns their number.\<close>

definition received :: "byte list \<Rightarrow> byte list" where
  "received dgram = take BUFFER_SIZE dgram"

definition recvfrom :: "byte list \<Rightarrow> byte list \<Rightarrow> byte list \<times> int" where
  "recvfrom buf dgram =
     (let d = received dgram in (d @ drop (length d) buf, int (length d)))"

datatype control = Continue | Break | Undefined_behaviour

text \<open>One iteration of \<^verbatim>\<open>while (1)\<close> in \<^verbatim>\<open>main\<close>. A failing \<^verbatim>\<open>recvfrom\<close> leaves \<^verbatim>\<open>pkt\<close> and
  \<^verbatim>\<open>from\<close> as they were, so the message shows the sender of the datagram before, or the
  uninitialised \<^verbatim>\<open>from\<close>.\<close>

definition loop_body :: "conf \<Rightarrow> world \<Rightarrow> io_event \<Rightarrow> control \<times> world" where
  "loop_body c w ev =
     (case ev of
        Recv_error \<Rightarrow> (Break, w\<lparr>out := out w @ [Stderr (Recvfrom_error (from_addr w))]\<rparr>)
      | Packet sender dgram sendlen \<Rightarrow>
          (let (buf, recvlen) = recvfrom (pkt w) dgram;
               w1 = w\<lparr>pkt := buf, from_addr := sender\<rparr>
           in if recvlen < 12
              then (Continue, w1\<lparr>out := out w1 @ [Stderr (Bad_packet sender)]\<rparr>)
              else
                (case toaddr c (seqnr w1) buf of
                   None \<Rightarrow> (Undefined_behaviour, w1)
                 | Some (sa, seqnr1) \<Rightarrow>
                     (let w2 = w1\<lparr>seqnr := seqnr1,
                                  out := out w1 @ [Sendto sa (take (nat recvlen) buf)]\<rparr>
                      in if sendlen = recvlen then (Continue, w2)
                         else (Continue,
                               w2\<lparr>out := out w2 @ [Stderr (Sendto_error (remotes c sa))]\<rparr>)))))"

text \<open>The loop over the answers of the outside. When they are used up the process is
  blocked in \<^verbatim>\<open>recvfrom\<close>, which is the result \<open>Continue\<close>.\<close>

fun relay_loop :: "conf \<Rightarrow> world \<Rightarrow> io_event list \<Rightarrow> control \<times> world" where
  "relay_loop c w [] = (Continue, w)"
| "relay_loop c w (ev # evs) =
     (case loop_body c w ev of
        (Continue, w1) \<Rightarrow> relay_loop c w1 evs
      | (Break, w1) \<Rightarrow> (Break, w1)
      | (Undefined_behaviour, w1) \<Rightarrow> (Undefined_behaviour, w1))"

text \<open>The environment of the process: libc, the file system, the results of \<^verbatim>\<open>socket\<close>,
  of the two \<^verbatim>\<open>setsockopt\<close> calls and of \<^verbatim>\<open>bind\<close>, and the uninitialised contents of the
  local variables \<^verbatim>\<open>pkt\<close> and \<^verbatim>\<open>from\<close>.\<close>

record env =
  env_libc :: libc
  fopen :: "string \<Rightarrow> string option"
  socket_ret :: int
  setsockopt_sndbuf_ret :: int
  setsockopt_rcvbuf_ret :: int
  bind_ret :: int
  pkt_init :: "byte list"
  from_init :: sockaddr_in

text \<open>How \<^verbatim>\<open>main\<close> ends: it returns a value, it is blocked in \<^verbatim>\<open>recvfrom\<close>, or its behaviour
  is undefined; each with the effects up to there.\<close>

datatype result =
    Exit int "effect list"
  | Blocked "effect list"
  | Undefined "effect list"

text \<open>The part of \<^verbatim>\<open>main\<close> before the loop: \<open>Inl\<close> is an early \<^verbatim>\<open>return\<close>, \<open>Inr\<close> the
  configuration and the effects with which the loop is entered.\<close>

definition startup :: "env \<Rightarrow> string list \<Rightarrow> (int \<times> effect list) + (conf \<times> effect list)" where
  "startup E argv =
     (let config = (if 1 < length argv then argv ! 1 else DEFAULT_CONFIG);
          (r, c, msgs) = parse_config (env_libc E) (fopen E) config conf0;
          o1 = map Stderr msgs
      in if r \<noteq> 0 then Inl (- 1, o1 @ [Stderr Failed_to_parse])
         else if sin_family (local c) = 0 then Inl (- 1, o1 @ [Stderr No_listen_address])
         else if nremotes c = 0 then Inl (- 1, o1 @ [Stderr No_upstream_addresses])
         else if socket_ret E < 0 then Inl (- 1, o1 @ [Stderr Socket_error])
         else
           (let o2 = o1 @ (if send_buffer c = 0 then []
                           else if setsockopt_sndbuf_ret E = 0 then []
                           else [Stderr Setsockopt_sndbuf_error]);
                o3 = o2 @ (if recv_buffer c = 0 then []
                           else if setsockopt_rcvbuf_ret E = 0 then []
                           else [Stderr Setsockopt_rcvbuf_error])
            in if bind_ret E < 0 then Inl (- 1, o3 @ [Stderr (Bind_error (local c)), Close_sock])
               else Inr (c, o3)))"

text \<open>The state in which the loop is entered: \<^verbatim>\<open>seqnr\<close> is 0.\<close>

definition world_init :: "env \<Rightarrow> effect list \<Rightarrow> world" where
  "world_init E os = \<lparr>seqnr = 0, pkt = pkt_init E, from_addr = from_init E, out = os\<rparr>"

text \<open>After the loop, \<^verbatim>\<open>main\<close> closes the socket and returns 0.\<close>

definition main :: "env \<Rightarrow> string list \<Rightarrow> io_event list \<Rightarrow> result" where
  "main E argv evs =
     (case startup E argv of
        Inl (r, os) \<Rightarrow> Exit r os
      | Inr (c, os) \<Rightarrow>
          (case relay_loop c (world_init E os) evs of
             (Continue, w) \<Rightarrow> Blocked (out w)
           | (Break, w) \<Rightarrow> Exit 0 (out w @ [Close_sock])
           | (Undefined_behaviour, w) \<Rightarrow> Undefined (out w)))"

section \<open>Observations on a run\<close>

text \<open>The calls of \<^verbatim>\<open>sendto\<close> among the effects, in order: the upstream index and the
  bytes handed over.\<close>

fun sendto_calls :: "effect list \<Rightarrow> (8 word \<times> byte list) list" where
  "sendto_calls [] = []"
| "sendto_calls (Sendto sa bytes # es) = (sa, bytes) # sendto_calls es"
| "sendto_calls (Stderr m # es) = sendto_calls es"
| "sendto_calls (Close_sock # es) = sendto_calls es"

text \<open>The received byte strings of at least 12 bytes, up to the first failure of
  \<^verbatim>\<open>recvfrom\<close>: the datagrams that the loop relays.\<close>

fun relayed :: "io_event list \<Rightarrow> byte list list" where
  "relayed [] = []"
| "relayed (Recv_error # evs) = []"
| "relayed (Packet sender dgram sendlen # evs) =
     (if length (received dgram) < 12 then relayed evs
      else received dgram # relayed evs)"

text \<open>A payload takes the affinity branch of \<^verbatim>\<open>toaddr\<close> when \<^verbatim>\<open>handle_gelf\<close> is set and it
  starts with the GELF chunk magic.\<close>

definition affinity :: "conf \<Rightarrow> byte list \<Rightarrow> bool" where
  "affinity c payload = (handle_gelf c \<and> take 2 payload = gelf_magic)"

text \<open>An answer of the outside that leads to a round-robin dispatch: at least 12 bytes
  are received, and they do not take the affinity branch.\<close>

fun round_robin_packet :: "conf \<Rightarrow> io_event \<Rightarrow> bool" where
  "round_robin_packet c Recv_error = False"
| "round_robin_packet c (Packet sender dgram sendlen) =
     (12 \<le> length (received dgram) \<and> \<not> affinity c (received dgram))"

section \<open>Configuration files with a list of upstreams\<close>

text \<open>The file with the line \<^verbatim>\<open>listen 0.0.0.0:12201\<close> followed by one \<^verbatim>\<open>upstream\<close> line for
  each pair of an address and a port, both given as they are written in the file.\<close>

definition upstream_line :: "string \<Rightarrow> string \<Rightarrow> string" where
  "upstream_line a p = ''upstream '' @ a @ '':'' @ p @ [CHR 0x0A]"

definition upstreams_config :: "(string \<times> string) list \<Rightarrow> string" where
  "upstreams_config ups =
     ''listen 0.0.0.0:12201'' @ [CHR 0x0A] @ concat (map (\<lambda>(a, p). upstream_line a p) ups)"

text \<open>A pair that makes a valid \<^verbatim>\<open>upstream\<close> line: address and port are not empty and
  free of separators and NUL, libc accepts the address, and it reads the whole port as a
  number of at most 65535.\<close>

definition upstream_entry_ok :: "libc \<Rightarrow> string \<times> string \<Rightarrow> bool" where
  "upstream_entry_ok L = (\<lambda>(a, p).
     a \<noteq> [] \<and> set a \<inter> set (CHR 0x00 # CHR '':'' # blanks) = {} \<and>
     p \<noteq> [] \<and> set p \<inter> set (CHR 0x00 # blanks) = {} \<and>
     length a + length p \<le> 100 \<and>
     inet_pton L a \<noteq> None \<and>
     snd (strtoul L p 10) = length p \<and> fst (strtoul L p 10) \<le> 65535)"

text \<open>The endpoint that such a line denotes.\<close>

definition upstream_endpoint :: "libc \<Rightarrow> string \<times> string \<Rightarrow> sockaddr_in" where
  "upstream_endpoint L = (\<lambda>(a, p).
     \<lparr>sin_family = AF_INET, sin_port = of_nat (fst (strtoul L p 10)),
      sin_addr = (case inet_pton L a of None \<Rightarrow> 0 | Some ip \<Rightarrow> ip)\<rparr>)"

section \<open>The example configuration of the README\<close>

text \<open>The configuration file that the README shows, the values of the two libc functions
  on the strings in it, and an environment in which every system call of the startup
  succeeds.\<close>

definition readme_config :: string where
  "readme_config =
     ''handle-gelf'' @ [CHR 0x0A] @
     ''send-buffer 0x10000000'' @ [CHR 0x0A] @
     ''recv-buffer 0x10000000'' @ [CHR 0x0A] @
     [CHR 0x0A] @
     ''listen 0.0.0.0:12201'' @ [CHR 0x0A] @
     ''upstream 1.1.1.1:12201'' @ [CHR 0x0A] @
     ''upstream 2.2.2.2:12201'' @ [CHR 0x0A] @
     ''upstream 3.3.3.3:12201'' @ [CHR 0x0A]"

definition readme_libc :: libc where
  "readme_libc =
     \<lparr>inet_pton = map_of [(''0.0.0.0'', 0), (''1.1.1.1'', 0x01010101),
                          (''2.2.2.2'', 0x02020202), (''3.3.3.3'', 0x03030303)],
      strtoul = (\<lambda>s base.
        if s = ''12201'' \<and> base = 10 then (12201, 5)
        else if s = ''0x10000000'' \<and> base = 0 then (268435456, 10)
        else (0, 0))\<rparr>"

definition readme_env :: env where
  "readme_env =
     \<lparr>env_libc = readme_libc,
      fopen = (\<lambda>name. if name = DEFAULT_CONFIG then Some readme_config else None),
      socket_ret = 3, setsockopt_sndbuf_ret = 0, setsockopt_rcvbuf_ret = 0, bind_ret = 0,
      pkt_init = replicate BUFFER_SIZE 0, from_init = zero_addr\<rparr>"

text \<open>The configuration that \<^verbatim>\<open>parse_config\<close> builds from it.\<close>

definition readme_conf :: conf where
  "readme_conf =
     \<lparr>handle_gelf = True, send_buffer = 0x10000000, recv_buffer = 0x10000000, nremotes = 3,
      local = \<lparr>sin_family = 2, sin_port = 12201, sin_addr = 0\<rparr>,
      remotes = (\<lambda>_. zero_addr)
        (0 := \<lparr>sin_family = 2, sin_port = 12201, sin_addr = 0x01010101\<rparr>,
         1 := \<lparr>sin_family = 2, sin_port = 12201, sin_addr = 0x02020202\<rparr>,
         2 := \<lparr>sin_family = 2, sin_port = 12201, sin_addr = 0x03030303\<rparr>)\<rparr>"

text \<open>The same environment with a configuration file of one \<^verbatim>\<open>listen\<close> line and 256
  \<^verbatim>\<open>upstream\<close> lines.\<close>

definition config_256 :: string where
  "config_256 = upstreams_config (replicate 256 (''1.1.1.1'', ''12201''))"

definition env_256 :: env where
  "env_256 = readme_env\<lparr>fopen := (\<lambda>name. if name = DEFAULT_CONFIG then Some config_256 else None)\<rparr>"

text \<open>Payloads of 12 bytes: the two chunks of a GELF message (magic, eight bytes of
  message id, sequence number and count), a chunk of another message, and a payload
  without the magic.\<close>

definition gelf_chunk :: "byte list" where
  "gelf_chunk = [0x1E, 0x0F, 0, 0, 0, 0, 0, 0, 0, 1, 0, 2]"

definition gelf_chunk_next :: "byte list" where
  "gelf_chunk_next = [0x1E, 0x0F, 0, 0, 0, 0, 0, 0, 0, 1, 1, 2]"

definition gelf_chunk_other :: "byte list" where
  "gelf_chunk_other = [0x1E, 0x0F, 0, 0, 0, 0, 0, 0, 0, 2, 0, 2]"

definition plain_payload :: "byte list" where
  "plain_payload = [0x7B, 0x22, 0x76, 0x65, 0x72, 0x73, 0x69, 0x6F, 0x6E, 0x22, 0x3A, 0x22]"

section \<open>Facts about crc8\<close>

lemma crc8_bits_8:
  "crc8_bits 8 crc =
     crc8_step (crc8_step (crc8_step (crc8_step
       (crc8_step (crc8_step (crc8_step (crc8_step crc)))))))"
  by (simp add: eval_nat_numeral)

lemma crc8_ref_bits_8:
  "crc8_ref_bits poly 8 crc =
     crc8_ref_step poly (crc8_ref_step poly (crc8_ref_step poly (crc8_ref_step poly
       (crc8_ref_step poly (crc8_ref_step poly (crc8_ref_step poly
         (crc8_ref_step poly crc)))))))"
  by (simp add: eval_nat_numeral)

lemma crc8_gelf_chunk: "crc8 (take 8 (drop 2 gelf_chunk)) = 2"
  by (simp add: gelf_chunk_def crc8_def crc8_bits_8 crc8_step_def)

section \<open>Facts about toaddr\<close>

lemma unat_ucast_8_64: "unat (ucast (n :: 8 word) :: 64 word) = unat n"
proof -
  have "unat n < 2 ^ 64"
    using unsigned_less [of n, where 'a = nat] by simp
  then show ?thesis
    by (simp add: unsigned_ucast_eq take_bit_nat_eq_self)
qed

text \<open>The truncation to \<^verbatim>\<open>uint8_t\<close> in the round-robin branch loses nothing: the
  remainder is below \<^verbatim>\<open>conf.nremotes\<close>.\<close>

lemma unat_round_robin_index:
  fixes s :: "64 word" and n :: "8 word"
  assumes "n \<noteq> 0"
  shows "unat (ucast (s mod ucast n) :: 8 word) = unat s mod unat n"
proof -
  have "unat (s mod ucast n) = unat s mod unat n"
    by (simp add: unat_mod unat_ucast_8_64)
  moreover have "unat s mod unat n < unat n"
    using assms by (simp add: unat_gt_0)
  moreover have "unat n < 2 ^ 8"
    using unsigned_less [of n, where 'a = nat] by simp
  ultimately have "unat (s mod ucast n) < 2 ^ 8"
    by simp
  then have "unat (ucast (s mod ucast n) :: 8 word) = unat (s mod ucast n)"
    by (simp add: unsigned_ucast_eq take_bit_nat_eq_self)
  then show ?thesis
    by (simp add: unat_mod unat_ucast_8_64)
qed

lemma toaddr_total:
  assumes "10 \<le> length p" "nremotes c \<noteq> 0"
  shows "toaddr c s p =
           Some (if affinity c p then (crc8 (take 8 (drop 2 p)) mod nremotes c, s)
                 else (ucast (s mod ucast (nremotes c)), s + 1))"
  using assms by (simp add: toaddr_def affinity_def)

text \<open>\<^verbatim>\<open>toaddr\<close> reads the first ten bytes only.\<close>

lemma toaddr_prefix:
  assumes "10 \<le> length p"
  shows "toaddr c s (p @ q) = toaddr c s p"
  using assms by (simp add: toaddr_def)

section \<open>Facts about the loop\<close>

lemma received_short: "length dgram \<le> BUFFER_SIZE \<Longrightarrow> received dgram = dgram"
  by (simp add: received_def)

lemma received_12: "length dgram < 12 \<Longrightarrow> received dgram = dgram"
  by (simp add: received_def BUFFER_SIZE_def)

lemma loop_body_recv_error:
  "loop_body c w Recv_error =
     (Break, w\<lparr>out := out w @ [Stderr (Recvfrom_error (from_addr w))]\<rparr>)"
  by (simp add: loop_body_def)

lemma loop_body_short:
  assumes "length (received dgram) < 12"
  shows "loop_body c w (Packet sender dgram sendlen) =
           (Continue, w\<lparr>pkt := received dgram @ drop (length (received dgram)) (pkt w),
                        from_addr := sender,
                        out := out w @ [Stderr (Bad_packet sender)]\<rparr>)"
  using assms by (simp add: loop_body_def recvfrom_def Let_def)

lemma loop_body_relay:
  assumes "12 \<le> length (received dgram)"
    and "toaddr c (seqnr w) (received dgram) = Some (sa, s1)"
  shows "loop_body c w (Packet sender dgram sendlen) =
           (Continue, w\<lparr>pkt := received dgram @ drop (length (received dgram)) (pkt w),
                        from_addr := sender, seqnr := s1,
                        out := out w @ Sendto sa (received dgram) #
                          (if sendlen = int (length (received dgram)) then []
                           else [Stderr (Sendto_error (remotes c sa))])\<rparr>)"
proof -
  have "toaddr c (seqnr w) (received dgram @ drop (length (received dgram)) (pkt w))
          = Some (sa, s1)"
    using assms by (simp add: toaddr_prefix)
  with assms(1) show ?thesis
    by (simp add: loop_body_def recvfrom_def Let_def)
qed

lemma sendto_calls_append:
  "sendto_calls (xs @ ys) = sendto_calls xs @ sendto_calls ys"
  by (induction xs rule: sendto_calls.induct) simp_all

text \<open>An iteration that receives at least 12 bytes, with at least one upstream
  configured: what it sends, and what it does to the counter.\<close>

lemma loop_body_dispatch:
  assumes "12 \<le> length (received dgram)" "nremotes c \<noteq> 0"
  shows "\<exists>w1. loop_body c w (Packet sender dgram sendlen) = (Continue, w1) \<and>
           seqnr w1 = (if affinity c (received dgram) then seqnr w else seqnr w + 1) \<and>
           sendto_calls (out w1) = sendto_calls (out w) @
             [(if affinity c (received dgram)
               then crc8 (take 8 (drop 2 (received dgram))) mod nremotes c
               else ucast (seqnr w mod ucast (nremotes c)), received dgram)]"
proof -
  have "10 \<le> length (received dgram)"
    using assms(1) by simp
  note t = toaddr_total [OF this assms(2), of "seqnr w"]
  show ?thesis
  proof (cases "affinity c (received dgram)")
    case True
    with t have "toaddr c (seqnr w) (received dgram) =
        Some (crc8 (take 8 (drop 2 (received dgram))) mod nremotes c, seqnr w)"
      by simp
    from loop_body_relay [OF assms(1) this, of sender sendlen] True
    show ?thesis by (simp add: sendto_calls_append)
  next
    case False
    with t have "toaddr c (seqnr w) (received dgram) =
        Some (ucast (seqnr w mod ucast (nremotes c)), seqnr w + 1)"
      by simp
    from loop_body_relay [OF assms(1) this, of sender sendlen] False
    show ?thesis by (simp add: sendto_calls_append)
  qed
qed

text \<open>With at least one upstream the loop never reaches the undefined remainder.\<close>

lemma relay_loop_never_undefined:
  assumes "nremotes c \<noteq> 0"
  shows "fst (relay_loop c w evs) \<noteq> Undefined_behaviour"
proof (induction evs arbitrary: w)
  case Nil
  show ?case by simp
next
  case (Cons ev evs)
  show ?case
  proof (cases ev)
    case Recv_error
    then show ?thesis by (simp add: loop_body_recv_error)
  next
    case (Packet sender dgram sendlen)
    show ?thesis
    proof (cases "length (received dgram) < 12")
      case True
      then show ?thesis using Cons.IH Packet by (simp add: loop_body_short)
    next
      case False
      then have "12 \<le> length (received dgram)" by simp
      from loop_body_dispatch [OF this assms, of w sender sendlen]
      obtain w1 where "loop_body c w (Packet sender dgram sendlen) = (Continue, w1)"
        by blast
      then show ?thesis using Cons.IH Packet by simp
    qed
  qed
qed

text \<open>Over a run, the byte strings handed to \<^verbatim>\<open>sendto\<close> are the received ones.\<close>

lemma relay_loop_payloads:
  assumes "nremotes c \<noteq> 0"
  shows "map snd (sendto_calls (out (snd (relay_loop c w evs)))) =
           map snd (sendto_calls (out w)) @ relayed evs"
proof (induction evs arbitrary: w)
  case Nil
  show ?case by simp
next
  case (Cons ev evs)
  show ?case
  proof (cases ev)
    case Recv_error
    then show ?thesis by (simp add: loop_body_recv_error sendto_calls_append)
  next
    case (Packet sender dgram sendlen)
    show ?thesis
    proof (cases "length (received dgram) < 12")
      case True
      then show ?thesis using Cons.IH Packet
        by (simp add: loop_body_short sendto_calls_append)
    next
      case False
      then have "12 \<le> length (received dgram)" by simp
      from loop_body_dispatch [OF this assms, of w sender sendlen]
      obtain w1 where "loop_body c w (Packet sender dgram sendlen) = (Continue, w1)"
        and "map snd (sendto_calls (out w1)) = map snd (sendto_calls (out w)) @ [received dgram]"
        by auto
      then show ?thesis using Cons.IH [of w1] Packet False by simp
    qed
  qed
qed

text \<open>Over a run, the counter advances by the number of relayed datagrams that did not
  take the affinity branch.\<close>

lemma relay_loop_counter:
  assumes "nremotes c \<noteq> 0"
  shows "seqnr (snd (relay_loop c w evs)) =
           seqnr w + of_nat (length (filter (\<lambda>d. \<not> affinity c d) (relayed evs)))"
proof (induction evs arbitrary: w)
  case Nil
  show ?case by simp
next
  case (Cons ev evs)
  show ?case
  proof (cases ev)
    case Recv_error
    then show ?thesis by (simp add: loop_body_recv_error)
  next
    case (Packet sender dgram sendlen)
    show ?thesis
    proof (cases "length (received dgram) < 12")
      case True
      then show ?thesis using Cons.IH Packet
        by (simp add: loop_body_short)
    next
      case False
      then have "12 \<le> length (received dgram)" by simp
      from loop_body_dispatch [OF this assms, of w sender sendlen]
      obtain w1 where "loop_body c w (Packet sender dgram sendlen) = (Continue, w1)"
        and "seqnr w1 = (if affinity c (received dgram) then seqnr w else seqnr w + 1)"
        by auto
      then show ?thesis using Cons.IH [of w1] Packet False by simp
    qed
  qed
qed

lemma upt_0_Suc_map: "map f [0..<Suc n] = f 0 # map (\<lambda>k. f (Suc k)) [0..<n]"
proof -
  have "[0..<Suc n] = 0 # map Suc [0..<n]"
    by (simp add: upt_conv_Cons map_Suc_upt del: upt_Suc)
  then show ?thesis by (simp add: comp_def del: upt_Suc)
qed

text \<open>A run of round-robin packets from any counter value: it does not stop, and the
  upstream indices follow the counter.\<close>

lemma relay_loop_round_robin:
  assumes "nremotes c \<noteq> 0" "list_all (round_robin_packet c) evs"
  shows "fst (relay_loop c w evs) = Continue \<and>
         seqnr (snd (relay_loop c w evs)) = seqnr w + of_nat (length evs) \<and>
         map fst (sendto_calls (out (snd (relay_loop c w evs)))) =
           map fst (sendto_calls (out w)) @
           map (\<lambda>k. ucast ((seqnr w + of_nat k) mod ucast (nremotes c))) [0..<length evs]"
  using assms(2)
proof (induction evs arbitrary: w)
  case Nil
  show ?case by simp
next
  case (Cons ev evs)
  from Cons.prems obtain sender dgram sendlen where ev: "ev = Packet sender dgram sendlen"
    and len: "12 \<le> length (received dgram)" and na: "\<not> affinity c (received dgram)"
    and rest: "list_all (round_robin_packet c) evs"
    by (cases ev) auto
  from loop_body_dispatch [OF len assms(1), of w sender sendlen] na
  obtain w1 where w1: "loop_body c w (Packet sender dgram sendlen) = (Continue, w1)"
    "seqnr w1 = seqnr w + 1"
    "map fst (sendto_calls (out w1)) = map fst (sendto_calls (out w)) @ [ucast (seqnr w mod ucast (nremotes c))]"
    by auto
  from Cons.IH [OF rest, of w1] w1 ev
  show ?case
    by (simp add: upt_0_Suc_map add.assoc del: upt_Suc)
qed

section \<open>Facts about the configuration parser\<close>

lemma fgets_lines_line:
  assumes "CHR 0x0A \<notin> set l" "length acc + length l \<le> 126"
  shows "fgets_lines acc (l @ CHR 0x0A # rest) = (acc @ l @ [CHR 0x0A]) # fgets_lines [] rest"
  using assms
proof (induction l arbitrary: acc)
  case Nil
  then show ?case by simp
next
  case (Cons ch l)
  from Cons.prems have "ch \<noteq> CHR 0x0A" "length acc \<noteq> 126" by auto
  moreover from Cons.prems have "CHR 0x0A \<notin> set l" "length (acc @ [ch]) + length l \<le> 126" by auto
  ultimately show ?case using Cons.IH [of "acc @ [ch]"] by simp
qed

lemma sockaddr_in_all_updated:
  "si\<lparr>sin_addr := a, sin_port := p, sin_family := f\<rparr> = \<lparr>sin_family = f, sin_port = p, sin_addr = a\<rparr>"
  by (cases si) simp

lemma readme_lines:
  "fgets_lines [] readme_config =
    [''handle-gelf'' @ [CHR 0x0A], ''send-buffer 0x10000000'' @ [CHR 0x0A],
     ''recv-buffer 0x10000000'' @ [CHR 0x0A], [CHR 0x0A],
     ''listen 0.0.0.0:12201'' @ [CHR 0x0A], ''upstream 1.1.1.1:12201'' @ [CHR 0x0A],
     ''upstream 2.2.2.2:12201'' @ [CHR 0x0A], ''upstream 3.3.3.3:12201'' @ [CHR 0x0A]]"
  by (simp add: readme_config_def)

lemma parse_readme_lines:
  "parse_lines readme_libc 0 conf0 (fgets_lines [] readme_config) = (None, readme_conf)"
  unfolding readme_lines
  by (simp add: parse_line_def strtok_def c_str_def blanks_def parse_addr_def readme_libc_def
      AF_INET_def Let_def sockaddr_in_all_updated conf0_def readme_conf_def zero_addr_def)

text \<open>The startup on the README's configuration enters the loop with \<open>readme_conf\<close>.\<close>

lemma startup_readme: "startup readme_env [''udp-balancer''] = Inr (readme_conf, [])"
proof -
  have "parse_config readme_libc (fopen readme_env) DEFAULT_CONFIG conf0 = (0, readme_conf, [])"
    by (simp add: parse_config_def readme_env_def parse_readme_lines)
  then show ?thesis
    by (simp add: startup_def readme_env_def readme_conf_def)
qed

text \<open>\<^verbatim>\<open>strtok\<close> on a token followed by a delimiter, and on a last token.\<close>

lemma strtok_first:
  assumes "tok \<noteq> []" "set tok \<inter> set delim = {}" "d \<in> set delim"
  shows "strtok (tok @ d # rest) delim = (Some tok, rest)"
proof -
  obtain t ts where tok: "tok = t # ts"
    using assms(1) by (cases tok) auto
  have notin: "\<And>x. x \<in> set tok \<Longrightarrow> x \<notin> set delim"
    using assms(2) by auto
  have 1: "dropWhile (\<lambda>c. c \<in> set delim) (tok @ d # rest) = tok @ d # rest"
    using notin tok by simp
  have 2: "takeWhile (\<lambda>c. c \<notin> set delim) (tok @ d # rest) = tok"
    using notin assms(3) by simp
  have 3: "dropWhile (\<lambda>c. c \<notin> set delim) (tok @ d # rest) = d # rest"
    using notin assms(3) by simp
  show ?thesis
    unfolding strtok_def 1 using 2 3 tok by simp
qed

lemma strtok_last:
  assumes "tok \<noteq> []" "set tok \<inter> set delim = {}"
  shows "strtok tok delim = (Some tok, [])"
proof -
  obtain t ts where tok: "tok = t # ts"
    using assms(1) by (cases tok) auto
  have notin: "\<And>x. x \<in> set tok \<Longrightarrow> x \<notin> set delim"
    using assms(2) by auto
  have 1: "dropWhile (\<lambda>c. c \<in> set delim) tok = tok"
    using notin tok by simp
  have 2: "takeWhile (\<lambda>c. c \<notin> set delim) tok = tok"
    using notin by simp
  have 3: "dropWhile (\<lambda>c. c \<notin> set delim) tok = []"
    using notin by simp
  show ?thesis
    unfolding strtok_def 1 using 2 3 tok by simp
qed

text \<open>An address and a port that libc accepts, free of separators.\<close>

lemma parse_addr_ok:
  assumes a: "a \<noteq> []" "set a \<inter> set '':'' = {}"
    and p: "p \<noteq> []" "set p \<inter> set blanks = {}"
    and ip: "inet_pton L a = Some ip"
    and port: "strtoul L p 10 = (v, length p)" "v \<le> 65535"
  shows "parse_addr L (a @ '':'' @ p) si =
           (0, \<lparr>sin_family = AF_INET, sin_port = of_nat v, sin_addr = ip\<rparr>)"
proof -
  have 1: "strtok (a @ CHR '':'' # p) '':'' = (Some a, p)"
    using strtok_first [OF a, of "CHR '':''" p] by simp
  have 2: "strtok p blanks = (Some p, [])"
    using p by (rule strtok_last)
  have v32: "unat (word_of_nat v :: 32 word) = v"
    using port(2) by (simp add: unat_of_nat)
  then have 3: "\<not> 65535 < (word_of_nat v :: 32 word)"
    using port(2) by (simp add: word_less_nat_alt)
  have "unat (ucast (word_of_nat v :: 32 word) :: 16 word) = v"
    using port(2) by (simp add: unsigned_ucast_eq v32 take_bit_nat_eq_self)
  moreover have "unat (word_of_nat v :: 16 word) = v"
    using port(2) by (simp add: unat_of_nat)
  ultimately have 4: "(ucast (word_of_nat v :: 32 word) :: 16 word) = of_nat v"
    by (simp add: word_unat_eq_iff)
  show ?thesis
    using p(1) by (simp add: parse_addr_def 1 2 3 4 ip port(1) sockaddr_in_all_updated Let_def)
qed


text \<open>A valid \<^verbatim>\<open>upstream\<close> line stores its endpoint in the slot \<^verbatim>\<open>conf.nremotes\<close> and
  increments the 8-bit counter.\<close>

lemma parse_line_upstream:
  assumes a: "a \<noteq> []" "set a \<inter> set (CHR 0x00 # CHR '':'' # blanks) = {}"
    and p: "p \<noteq> []" "set p \<inter> set (CHR 0x00 # blanks) = {}"
    and ip: "inet_pton L a = Some ip"
    and port: "strtoul L p 10 = (v, length p)" "v \<le> 65535"
  shows "parse_line L ln c (upstream_line a p) =
           (None, c\<lparr>nremotes := nremotes c + 1,
                    remotes := (remotes c)(nremotes c :=
                      \<lparr>sin_family = AF_INET, sin_port = of_nat v, sin_addr = ip\<rparr>)\<rparr>)"
proof -
  have 0: "c_str (upstream_line a p) = upstream_line a p"
    using a(2) p(2) by (auto simp add: c_str_def upstream_line_def blanks_def)
  have 1: "strtok (upstream_line a p) blanks = (Some ''upstream'', a @ '':'' @ p @ [CHR 0x0A])"
    using strtok_first [of "''upstream''" blanks "CHR '' ''" "a @ '':'' @ p @ [CHR 0x0A]"]
    by (simp add: upstream_line_def blanks_def)
  have "set (a @ '':'' @ p) \<inter> set blanks = {}"
    using a(2) p(2) by (auto simp add: blanks_def)
  from strtok_first [OF _ this, of "CHR 0x0A" "[]"]
  have 2: "strtok (a @ '':'' @ p @ [CHR 0x0A]) blanks = (Some (a @ '':'' @ p), [])"
    by (simp add: blanks_def)
  have 3: "parse_addr L (a @ '':'' @ p) si =
           (0, \<lparr>sin_family = AF_INET, sin_port = of_nat v, sin_addr = ip\<rparr>)" for si
    using a p ip port by (intro parse_addr_ok) auto
  show ?thesis
    unfolding parse_line_def 0 1 using 2 3
    by (simp add: Let_def)
qed


lemma word8_Suc_neq_0:
  assumes "k < 255"
  shows "(1 + of_nat k :: 8 word) \<noteq> 0"
proof -
  have "unat (of_nat (Suc k) :: 8 word) = Suc k"
    using assms unat_of_nat [of "Suc k", where 'a = 8] by (simp del: of_nat_Suc)
  then have "(of_nat (Suc k) :: 8 word) \<noteq> 0"
    by (metis Zero_not_Suc unat_0)
  then show ?thesis by simp
qed

text \<open>A sequence of such lines: the counter advances by their number modulo 256, slots
  outside the range are untouched, and up to 256 lines fill their slots in order.\<close>

lemma parse_lines_upstream_lines:
  assumes "length lines = length eps"
    and "\<And>k ln c. k < length lines \<Longrightarrow>
           parse_line L ln c (lines ! k) =
             (None, c\<lparr>nremotes := nremotes c + 1,
                      remotes := (remotes c)(nremotes c := eps ! k)\<rparr>)"
  shows "\<exists>c1. parse_lines L ln c lines = (None, c1) \<and>
           nremotes c1 = nremotes c + of_nat (length lines) \<and>
           local c1 = local c \<and> handle_gelf c1 = handle_gelf c \<and>
           send_buffer c1 = send_buffer c \<and> recv_buffer c1 = recv_buffer c \<and>
           (\<forall>i. (\<forall>k<length lines. i \<noteq> nremotes c + of_nat k) \<longrightarrow> remotes c1 i = remotes c i) \<and>
           (length lines \<le> 256 \<longrightarrow> (\<forall>k<length lines. remotes c1 (nremotes c + of_nat k) = eps ! k))"
  using assms
proof (induction lines eps arbitrary: ln c rule: list_induct2)
  case Nil
  show ?case by simp
next
  case (Cons l ls e es)
  define c' where "c' = c\<lparr>nremotes := nremotes c + 1, remotes := (remotes c)(nremotes c := e)\<rparr>"
  have "0 < length (l # ls)"
    by simp
  from Cons.prems [OF this, of "ln + 1" c]
  have first: "parse_line L (ln + 1) c l = (None, c')"
    by (simp only: nth_Cons_0 c'_def)
  have rest: "parse_line L ln c (ls ! k) =
             (None, c\<lparr>nremotes := nremotes c + 1,
                      remotes := (remotes c)(nremotes c := es ! k)\<rparr>)"
    if "k < length ls" for k ln c
  proof -
    from that have "Suc k < length (l # ls)"
      by simp
    from Cons.prems [OF this, of ln c] show ?thesis
      by (simp only: nth_Cons_Suc)
  qed
  from Cons.IH [OF rest, of "ln + 1" c']
  obtain c1 where c1: "parse_lines L (ln + 1) c' ls = (None, c1)"
    "nremotes c1 = nremotes c' + of_nat (length ls)"
    "local c1 = local c'" "handle_gelf c1 = handle_gelf c'"
    "send_buffer c1 = send_buffer c'" "recv_buffer c1 = recv_buffer c'"
    "\<And>i. (\<forall>k<length ls. i \<noteq> nremotes c' + of_nat k) \<Longrightarrow> remotes c1 i = remotes c' i"
    "length ls \<le> 256 \<Longrightarrow> (\<forall>k<length ls. remotes c1 (nremotes c' + of_nat k) = es ! k)"
    by blast
  have n': "nremotes c' = nremotes c + 1" "local c' = local c" "handle_gelf c' = handle_gelf c"
    "send_buffer c' = send_buffer c" "recv_buffer c' = recv_buffer c"
    by (simp_all add: c'_def)
  have frame: "remotes c1 i = remotes c i"
    if "\<forall>k<length (l # ls). i \<noteq> nremotes c + of_nat k" for i
  proof -
    from that [rule_format, of 0] have i0: "i \<noteq> nremotes c" by simp
    have "\<forall>k<length ls. i \<noteq> nremotes c' + of_nat k"
      using that [rule_format, of "Suc k" for k] by (simp add: n' add.assoc)
    from c1(7) [OF this] i0 show ?thesis by (simp add: c'_def)
  qed
  have ordered: "remotes c1 (nremotes c + of_nat k) = (e # es) ! k"
    if len: "length (l # ls) \<le> 256" and k: "k < length (l # ls)" for k
  proof (cases k)
    case 0
    have "\<forall>j<length ls. nremotes c \<noteq> nremotes c' + of_nat j"
    proof (intro allI impI)
      fix j assume "j < length ls"
      with len have "j < 255" by simp
      from word8_Suc_neq_0 [OF this] show "nremotes c \<noteq> nremotes c' + of_nat j"
        by (simp add: n' add.assoc)
    qed
    from c1(7) [OF this] 0 show ?thesis by (simp add: c'_def)
  next
    case (Suc j)
    with k len have "j < length ls" "length ls \<le> 256" by simp_all
    with c1(8) have "remotes c1 (nremotes c' + of_nat j) = es ! j" by simp
    with Suc show ?thesis by (simp add: n' add.assoc)
  qed
  show ?case
  proof (intro exI [of _ c1] conjI)
    show "parse_lines L ln c (l # ls) = (None, c1)"
      using first c1(1) by simp
    show "nremotes c1 = nremotes c + of_nat (length (l # ls))"
      using c1(2) by (simp add: n' add.assoc)
    show "local c1 = local c" "handle_gelf c1 = handle_gelf c"
      "send_buffer c1 = send_buffer c" "recv_buffer c1 = recv_buffer c"
      using c1(3,4,5,6) n' by simp_all
    show "\<forall>i. (\<forall>k<length (l # ls). i \<noteq> nremotes c + of_nat k) \<longrightarrow> remotes c1 i = remotes c i"
      using frame by blast
    show "length (l # ls) \<le> 256 \<longrightarrow>
          (\<forall>k<length (l # ls). remotes c1 (nremotes c + of_nat k) = (e # es) ! k)"
      using ordered by blast
  qed
qed


lemma upstream_entry_okD:
  assumes "upstream_entry_ok L (a, p)"
  shows "a \<noteq> []" "set a \<inter> set (CHR 0x00 # CHR '':'' # blanks) = {}"
    "p \<noteq> []" "set p \<inter> set (CHR 0x00 # blanks) = {}"
    "length a + length p \<le> 100"
    "\<exists>ip. inet_pton L a = Some ip"
    "strtoul L p 10 = (fst (strtoul L p 10), length p)"
    "fst (strtoul L p 10) \<le> 65535"
proof -
  from assms have *: "a \<noteq> [] \<and> set a \<inter> set (CHR 0x00 # CHR '':'' # blanks) = {} \<and>
       p \<noteq> [] \<and> set p \<inter> set (CHR 0x00 # blanks) = {} \<and> length a + length p \<le> 100 \<and>
       inet_pton L a \<noteq> None \<and> snd (strtoul L p 10) = length p \<and> fst (strtoul L p 10) \<le> 65535"
    unfolding upstream_entry_ok_def prod.case .
  from * show "a \<noteq> []" by blast
  from * show "set a \<inter> set (CHR 0x00 # CHR '':'' # blanks) = {}" by blast
  from * show "p \<noteq> []" by blast
  from * show "set p \<inter> set (CHR 0x00 # blanks) = {}" by blast
  from * show "length a + length p \<le> 100" by blast
  from * show "\<exists>ip. inet_pton L a = Some ip" by blast
  from * show "strtoul L p 10 = (fst (strtoul L p 10), length p)" by (metis prod.collapse)
  from * show "fst (strtoul L p 10) \<le> 65535" by blast
qed

lemma fgets_lines_concat:
  assumes "\<And>l. l \<in> set ls \<Longrightarrow> \<exists>b. l = b @ [CHR 0x0A] \<and> CHR 0x0A \<notin> set b \<and> length b \<le> 126"
  shows "fgets_lines [] (concat ls @ rest) = ls @ fgets_lines [] rest"
  using assms
proof (induction ls)
  case Nil
  show ?case by simp
next
  case (Cons l ls)
  from Cons.prems [of l] obtain b where b: "l = b @ [CHR 0x0A]" "CHR 0x0A \<notin> set b" "length b \<le> 126"
    by auto
  have "fgets_lines [] (b @ CHR 0x0A # (concat ls @ rest))
      = ([] @ b @ [CHR 0x0A]) # fgets_lines [] (concat ls @ rest)"
    using b(2,3) by (intro fgets_lines_line) simp_all
  moreover have "fgets_lines [] (concat ls @ rest) = ls @ fgets_lines [] rest"
    using Cons.prems by (intro Cons.IH) simp
  ultimately show ?case
    by (simp add: b(1))
qed

text \<open>\<^verbatim>\<open>parse_config\<close> on a file with any number of valid upstream lines.\<close>

lemma parse_config_upstreams:
  assumes cfg: "fs name = Some (upstreams_config ups)"
    and listen: "inet_pton L ''0.0.0.0'' = Some 0" "strtoul L ''12201'' 10 = (12201, 5)"
    and ups: "list_all (upstream_entry_ok L) ups"
  shows "\<exists>c1. parse_config L fs name conf0 = (0, c1, []) \<and>
           nremotes c1 = of_nat (length ups) \<and>
           local c1 = \<lparr>sin_family = AF_INET, sin_port = 12201, sin_addr = 0\<rparr> \<and>
           send_buffer c1 = 0 \<and> recv_buffer c1 = 0 \<and>
           (length ups \<le> 256 \<longrightarrow>
              (\<forall>k<length ups. remotes c1 (of_nat k) = upstream_endpoint L (ups ! k)))"
proof -
  define lines where "lines = map (\<lambda>(a, p). upstream_line a p) ups"
  define eps where "eps = map (upstream_endpoint L) ups"
  define c0 where "c0 = conf0\<lparr>local := \<lparr>sin_family = AF_INET, sin_port = 12201, sin_addr = 0\<rparr>\<rparr>"
  have ok: "upstream_entry_ok L (ups ! k)" if "k < length ups" for k
    using ups that by (simp add: list_all_length)
  have line: "parse_line L ln c (lines ! k) =
             (None, c\<lparr>nremotes := nremotes c + 1,
                      remotes := (remotes c)(nremotes c := eps ! k)\<rparr>)"
    if k: "k < length lines" for k ln c
  proof -
    obtain a p where ap: "ups ! k = (a, p)"
      by (cases "ups ! k")
    from k have k': "k < length ups"
      by (simp add: lines_def)
    from ok [OF k'] have okk: "upstream_entry_ok L (a, p)"
      by (simp only: ap)
    from upstream_entry_okD(6) [OF okk] obtain ip where ip: "inet_pton L a = Some ip"
      by blast
    note upstream_entry_okD(1-4) [OF okk] ip upstream_entry_okD(7,8) [OF okk]
    from parse_line_upstream [OF this, of ln c] ap k' ip
    show ?thesis
      by (simp add: lines_def eps_def upstream_endpoint_def)
  qed
  have len: "length lines = length eps"
    by (simp add: lines_def eps_def)
  from parse_lines_upstream_lines [OF len line, of 1 c0]
  obtain c1 where c1: "parse_lines L 1 c0 lines = (None, c1)"
    "nremotes c1 = nremotes c0 + of_nat (length lines)"
    "local c1 = local c0" "send_buffer c1 = send_buffer c0" "recv_buffer c1 = recv_buffer c0"
    "length lines \<le> 256 \<longrightarrow> (\<forall>k<length lines. remotes c1 (nremotes c0 + of_nat k) = eps ! k)"
    by blast
  have n: "length lines = length ups"
    by (simp add: lines_def)
  have c0: "nremotes c0 = 0" "send_buffer c0 = 0" "recv_buffer c0 = 0"
    "local c0 = \<lparr>sin_family = AF_INET, sin_port = 12201, sin_addr = 0\<rparr>"
    by (simp_all add: c0_def conf0_def)
  have listen_line: "parse_line L 1 conf0 (''listen 0.0.0.0:12201'' @ [CHR 0x0A]) = (None, c0)"
    using listen
    by (simp add: parse_line_def strtok_def c_str_def blanks_def parse_addr_def c0_def
        Let_def sockaddr_in_all_updated)
  have "fgets_lines [] (upstreams_config ups) = (''listen 0.0.0.0:12201'' @ [CHR 0x0A]) # lines"
  proof -
    have short: "\<exists>b. l = b @ [CHR 0x0A] \<and> CHR 0x0A \<notin> set b \<and> length b \<le> 126"
      if "l \<in> set ((''listen 0.0.0.0:12201'' @ [CHR 0x0A]) # lines)" for l
    proof -
      from that have "l = ''listen 0.0.0.0:12201'' @ [CHR 0x0A] \<or> l \<in> set lines"
        by (simp only: set_simps insert_iff)
      then show ?thesis
      proof (elim disjE)
        assume 1: "l = ''listen 0.0.0.0:12201'' @ [CHR 0x0A]"
        show ?thesis
          by (rule exI [of _ "''listen 0.0.0.0:12201''"]) (simp add: 1)
      next
        assume "l \<in> set lines"
        then obtain k where kl: "k < length lines" and l: "l = lines ! k"
          by (auto simp add: in_set_conv_nth)
        from kl have k: "k < length ups"
          by (simp add: lines_def)
        obtain a p where ap: "ups ! k = (a, p)"
          by (cases "ups ! k")
        from ok [OF k] have okk: "upstream_entry_ok L (a, p)"
          by (simp only: ap)
        from upstream_entry_okD(2,4,5) [OF okk]
        have "CHR 0x0A \<notin> set a" "CHR 0x0A \<notin> set p" "length a + length p \<le> 100"
          unfolding blanks_def by auto
        moreover have "l = (''upstream '' @ a @ '':'' @ p) @ [CHR 0x0A]"
          using k ap by (simp add: l lines_def upstream_line_def)
        ultimately show ?thesis
          by (intro exI [of _ "''upstream '' @ a @ '':'' @ p"]) simp
      qed
    qed
    have "upstreams_config ups = concat ((''listen 0.0.0.0:12201'' @ [CHR 0x0A]) # lines) @ []"
      unfolding upstreams_config_def lines_def by simp
    moreover have "fgets_lines [] (concat ((''listen 0.0.0.0:12201'' @ [CHR 0x0A]) # lines) @ []) =
        ((''listen 0.0.0.0:12201'' @ [CHR 0x0A]) # lines) @ fgets_lines [] []"
      by (rule fgets_lines_concat [of "(''listen 0.0.0.0:12201'' @ [CHR 0x0A]) # lines" "[]"])
        (rule short)
    moreover have "fgets_lines [] [] = []"
      by simp
    ultimately show ?thesis
      by (simp only: append_Nil2)
  qed
  then have "parse_lines L 0 conf0 (fgets_lines [] (upstreams_config ups)) = (None, c1)"
    using listen_line c1(1) by (simp del: append.simps)
  then have "parse_config L fs name conf0 = (0, c1, [])"
    by (simp add: parse_config_def cfg)
  moreover have "remotes c1 (of_nat k) = upstream_endpoint L (ups ! k)"
    if "length ups \<le> 256" "k < length ups" for k
    using c1(6) that by (simp add: n c0 eps_def)
  ultimately show ?thesis
    using c1(2,3,4,5) c0 n by simp
qed

text \<open>A configuration with 1 to 255 upstream lines is accepted, and the loop is entered
  with exactly these endpoints, in the order of the file.\<close>

lemma startup_accepts_below_256:
  assumes cfg: "fopen E DEFAULT_CONFIG = Some (upstreams_config ups)"
    and listen: "inet_pton (env_libc E) ''0.0.0.0'' = Some 0"
      "strtoul (env_libc E) ''12201'' 10 = (12201, 5)"
    and ups: "list_all (upstream_entry_ok (env_libc E)) ups" "ups \<noteq> []" "length ups \<le> 255"
    and sys: "0 \<le> socket_ret E" "0 \<le> bind_ret E"
  shows "\<exists>c. startup E [prog] = Inr (c, []) \<and> unat (nremotes c) = length ups \<and>
           map (\<lambda>k. remotes c (of_nat k)) [0..<length ups] =
             map (upstream_endpoint (env_libc E)) ups"
proof -
  from parse_config_upstreams [of "fopen E" DEFAULT_CONFIG ups "env_libc E", OF cfg listen ups(1)]
  obtain c1 where c1: "parse_config (env_libc E) (fopen E) DEFAULT_CONFIG conf0 = (0, c1, [])"
    "nremotes c1 = of_nat (length ups)"
    "local c1 = \<lparr>sin_family = AF_INET, sin_port = 12201, sin_addr = 0\<rparr>"
    "send_buffer c1 = 0" "recv_buffer c1 = 0"
    "length ups \<le> 256 \<longrightarrow> (\<forall>k<length ups. remotes c1 (of_nat k) = upstream_endpoint (env_libc E) (ups ! k))"
    by blast
  have un: "unat (nremotes c1) = length ups"
    using c1(2) ups(3) by (simp add: unat_of_nat)
  then have nz: "nremotes c1 \<noteq> 0"
    using ups(2) by (metis length_0_conv unat_0)
  have "startup E [prog] = Inr (c1, [])"
    using c1(1,3,4,5) nz sys by (simp add: startup_def AF_INET_def)
  moreover have "map (\<lambda>k. remotes c1 (of_nat k)) [0..<length ups] =
      map (upstream_endpoint (env_libc E)) ups"
    using c1(6) ups(3) by (intro nth_equalityI) simp_all
  ultimately show ?thesis
    using un by blast
qed

text \<open>A configuration with exactly 256 upstream lines is rejected: the 8-bit counter
  \<^verbatim>\<open>conf.nremotes\<close> is 0 again when \<^verbatim>\<open>main\<close> tests it.\<close>

lemma startup_rejects_256:
  assumes cfg: "fopen E DEFAULT_CONFIG = Some (upstreams_config ups)"
    and listen: "inet_pton (env_libc E) ''0.0.0.0'' = Some 0"
      "strtoul (env_libc E) ''12201'' 10 = (12201, 5)"
    and ups: "list_all (upstream_entry_ok (env_libc E)) ups" "length ups = 256"
  shows "startup E [prog] = Inl (- 1, [Stderr No_upstream_addresses])"
proof -
  from parse_config_upstreams [of "fopen E" DEFAULT_CONFIG ups "env_libc E", OF cfg listen ups(1)]
  obtain c1 where c1: "parse_config (env_libc E) (fopen E) DEFAULT_CONFIG conf0 = (0, c1, [])"
    "nremotes c1 = of_nat (length ups)"
    "local c1 = \<lparr>sin_family = AF_INET, sin_port = 12201, sin_addr = 0\<rparr>"
    by blast
  have "nremotes c1 = 0"
    using c1(2) ups(2) by simp
  then show ?thesis
    using c1(1,3) by (simp add: startup_def AF_INET_def)
qed

section \<open>Facts about main\<close>

text \<open>The loop is entered only with at least one upstream.\<close>

lemma startup_Inr:
  assumes "startup E argv = Inr (c, os)"
  shows "nremotes c \<noteq> 0"
  using assms
  by (auto simp: startup_def Let_def split: prod.splits if_splits)

text \<open>Once the loop is entered, every return of \<^verbatim>\<open>main\<close> is the \<^verbatim>\<open>return 0\<close> after the
  loop.\<close>

lemma main_returns_0_after_startup:
  assumes "startup E argv = Inr (c, os)" "main E argv evs = Exit r os1"
  shows "r = 0"
  using assms by (auto simp add: main_def split: prod.splits control.splits)

text \<open>No run of \<^verbatim>\<open>main\<close> takes a remainder by zero or reads beyond the received bytes.\<close>

lemma main_never_undefined: "main E argv evs \<noteq> Undefined os"
proof (cases "startup E argv")
  case (Inl a)
  then show ?thesis by (simp add: main_def split: prod.splits)
next
  case (Inr b)
  obtain c os1 where b: "b = (c, os1)" by (cases b)
  with Inr have "nremotes c \<noteq> 0" using startup_Inr by blast
  from relay_loop_never_undefined [OF this, of "world_init E os1" evs]
  show ?thesis using Inr b
    by (auto simp add: main_def split: prod.splits control.splits)
qed

text \<open>While the counter has not wrapped, the index of the round-robin branch is the
  number of earlier round-robin dispatches modulo \<^verbatim>\<open>conf.nremotes\<close>.\<close>

lemma round_robin_index_of_nat:
  fixes n :: "8 word"
  assumes "n \<noteq> 0" "k < 2 ^ 64"
  shows "(ucast ((of_nat k :: 64 word) mod ucast n) :: 8 word) = of_nat (k mod unat n)"
proof -
  have k: "unat (of_nat k :: 64 word) = k"
    using assms(2) by (simp add: unat_of_nat)
  have "k mod unat n < unat n"
    using assms(1) by (simp add: unat_gt_0)
  moreover have "unat n < 2 ^ 8"
    using unsigned_less [of n, where 'a = nat] by simp
  ultimately have "k mod unat n < 2 ^ 8"
    by simp
  then have "unat (of_nat (k mod unat n) :: 8 word) = k mod unat n"
    by (simp add: unat_of_nat)
  then show ?thesis
    using unat_round_robin_index [OF assms(1), of "of_nat k"] k
    by (simp add: word_unat_eq_iff)
qed

text \<open>The two branches of \<^verbatim>\<open>toaddr\<close>: the affinity branch selects \<^verbatim>\<open>crc8\<close> of the bytes 2 to
  9 modulo \<^verbatim>\<open>conf.nremotes\<close> and leaves \<^verbatim>\<open>seqnr\<close>; the other branch adds one to \<^verbatim>\<open>seqnr\<close>.
  Over a run of the loop, \<^verbatim>\<open>seqnr\<close> advances by the number of relayed datagrams that did
  not take the affinity branch.\<close>

lemma toaddr_branches:
  assumes "nremotes c \<noteq> 0" "10 \<le> length payload"
  shows "(handle_gelf c \<and> take 2 payload = gelf_magic \<longrightarrow>
            (\<exists>i. toaddr c s payload = Some (i, s) \<and>
                 unat i = unat (crc8 (take 8 (drop 2 payload))) mod unat (nremotes c))) \<and>
         (\<not> (handle_gelf c \<and> take 2 payload = gelf_magic) \<longrightarrow>
            (\<exists>i. toaddr c s payload = Some (i, s + 1))) \<and>
         seqnr (snd (relay_loop c w evs)) =
           seqnr w + of_nat (length (filter (\<lambda>d. \<not> affinity c d) (relayed evs)))"
  using toaddr_total [OF assms(2) assms(1), of s] relay_loop_counter [OF assms(1), of w evs]
  by (simp add: affinity_def unat_mod)

section \<open>The claims\<close>

text \<open>
  C1. The claim: for every 8-byte input, \<^verbatim>\<open>crc8\<close> returns the value of the standard CRC-8
  with polynomial 0x81, initial value 0x00, no reflection, most significant bit first.
  The code shifts the register first and tests bit 7 of the shifted value, where the
  standard algorithm tests the bit that is shifted out. On the eight bytes
  00 00 00 00 00 00 00 01 the code returns 0x02 and the reference CRC-8 returns 0x81.
\<close>

theorem crc8_differs_from_reference:
  "crc8 [0, 0, 0, 0, 0, 0, 0, 1] = 0x02 \<and> crc8_reference [0, 0, 0, 0, 0, 0, 0, 1] = 0x81"
  by code_simp

text \<open>
  C2. The claim: when a receive on the listening socket fails, the loop logs the error
  and terminates, and the process exits with a non-zero status. The code logs and leaves
  the loop, but then closes the socket and returns 0: with the README's configuration and
  a first \<^verbatim>\<open>recvfrom\<close> that fails, \<^verbatim>\<open>main\<close> returns 0.
\<close>

theorem main_returns_0_after_recv_failure:
  "main readme_env [''udp-balancer''] (Recv_error # evs) =
     Exit 0 [Stderr (Recvfrom_error zero_addr), Close_sock]"
proof -
  have "from_init readme_env = zero_addr"
    by (simp add: readme_env_def)
  then show ?thesis
    by (simp add: main_def startup_readme loop_body_recv_error world_init_def)
qed

text \<open>
  C3. The claim: for every number L of upstream entries with 1 \<le> L \<le> 256 the program
  accepts the configuration and runs the loop over exactly L endpoints. With L = 256 the
  8-bit counter \<^verbatim>\<open>conf.nremotes\<close> has wrapped to 0 when \<^verbatim>\<open>main\<close> tests it: the program
  prints that no upstream addresses are defined and returns -1.
\<close>

theorem main_rejects_256_upstreams:
  "main env_256 [''udp-balancer''] evs = Exit (- 1) [Stderr No_upstream_addresses]"
proof -
  have "startup env_256 [''udp-balancer''] = Inl (- 1, [Stderr No_upstream_addresses])"
  proof (rule startup_rejects_256)
    show "fopen env_256 DEFAULT_CONFIG = Some (upstreams_config (replicate 256 (''1.1.1.1'', ''12201'')))"
      by (simp add: env_256_def config_256_def)
    show "inet_pton (env_libc env_256) ''0.0.0.0'' = Some 0"
      "strtoul (env_libc env_256) ''12201'' 10 = (12201, 5)"
      by (simp_all add: env_256_def readme_env_def readme_libc_def)
    have "upstream_entry_ok readme_libc (''1.1.1.1'', ''12201'')"
      by (simp add: upstream_entry_ok_def readme_libc_def blanks_def)
    then show "list_all (upstream_entry_ok (env_libc env_256)) (replicate 256 (''1.1.1.1'', ''12201''))"
      by (simp add: list_all_iff env_256_def readme_env_def)
    show "length (replicate 256 (''1.1.1.1'', ''12201'')) = 256"
      by simp
  qed
  then show ?thesis
    by (simp add: main_def)
qed

text \<open>
  C4, as stated, fails. The claim: two payloads of at least 12 bytes that begin with the
  marker 0x1E 0x0F and agree on bytes 2 to 9 get the same upstream index, for any two
  counter values and any N \<ge> 1. The affinity branch of \<^verbatim>\<open>toaddr\<close> is guarded by
  \<^verbatim>\<open>conf.handle_gelf\<close>, which is off unless the configuration has a \<^verbatim>\<open>handle-gelf\<close> line:
  without it, with two upstreams, one and the same GELF chunk is sent to upstream 0 at
  counter 0 and to upstream 1 at counter 1.
\<close>

theorem toaddr_without_affinity_mode_follows_counter:
  "length gelf_chunk = 12 \<and> take 2 gelf_chunk = gelf_magic \<and>
   toaddr (conf0\<lparr>nremotes := 2\<rparr>) 0 gelf_chunk = Some (0, 1) \<and>
   toaddr (conf0\<lparr>nremotes := 2\<rparr>) 1 gelf_chunk = Some (1, 2)"
  by (simp add: toaddr_def gelf_chunk_def gelf_magic_def conf0_def)

text \<open>
  C4, amended: when \<^verbatim>\<open>handle_gelf\<close> is set, two payloads of at least 12 bytes that begin
  with the marker 0x1E 0x0F and agree on bytes 2 to 9 get the same upstream index,
  whatever the two counter values and the number N \<ge> 1 of upstreams (and the counter
  is left as it was); in particular, replacing any byte at offset 10 or beyond does not
  change the selected index.
\<close>

theorem toaddr_affinity_independent_of_counter_and_tail:
  assumes "handle_gelf c" "nremotes c \<noteq> 0"
    and "12 \<le> length p1" "12 \<le> length p2"
    and "take 2 p1 = gelf_magic" "take 2 p2 = gelf_magic"
    and "take 8 (drop 2 p1) = take 8 (drop 2 p2)"
  shows "(\<exists>i. toaddr c s1 p1 = Some (i, s1) \<and> toaddr c s2 p2 = Some (i, s2)) \<and>
         (\<forall>k b. 10 \<le> k \<longrightarrow> map_option fst (toaddr c s1 (p1[k := b])) = map_option fst (toaddr c s1 p1))"
proof -
  have a1: "affinity c p1" and a2: "affinity c p2"
    using assms by (simp_all add: affinity_def)
  have "toaddr c s1 p1 = Some (crc8 (take 8 (drop 2 p1)) mod nremotes c, s1)"
    using toaddr_total [of p1 c s1] assms a1 by simp
  moreover have "toaddr c s2 p2 = Some (crc8 (take 8 (drop 2 p1)) mod nremotes c, s2)"
    using toaddr_total [of p2 c s2] assms a2 by simp
  moreover have "map_option fst (toaddr c s1 (p1[k := b])) = map_option fst (toaddr c s1 p1)"
    if "10 \<le> k" for k b
  proof -
    have "take 10 (p1[k := b]) = take 10 p1"
      using that by simp
    then have "take 2 (take 10 (p1[k := b])) = take 2 (take 10 p1)"
      and "take 8 (drop 2 (take 10 (p1[k := b]))) = take 8 (drop 2 (take 10 p1))"
      by simp_all
    then have "take 2 (p1[k := b]) = take 2 p1"
      and "take 8 (drop 2 (p1[k := b])) = take 8 (drop 2 p1)"
      by (simp_all add: drop_take)
    moreover have "length (p1[k := b]) = length p1"
      by simp
    ultimately show ?thesis
      unfolding toaddr_def by (simp only:)
  qed
  ultimately show ?thesis by blast
qed

text \<open>
  C4, witness: the README's configuration with its three upstreams, the two chunks of one
  GELF message, at counters 0 and 7; both go to upstream 2, and so does the first chunk
  with its byte 11 replaced.
\<close>

theorem toaddr_affinity_independent_of_counter_and_tail_witness:
  "handle_gelf readme_conf \<and> nremotes readme_conf \<noteq> 0 \<and>
   12 \<le> length gelf_chunk \<and> 12 \<le> length gelf_chunk_next \<and>
   take 2 gelf_chunk = gelf_magic \<and> take 2 gelf_chunk_next = gelf_magic \<and>
   take 8 (drop 2 gelf_chunk) = take 8 (drop 2 gelf_chunk_next) \<and>
   toaddr readme_conf 0 gelf_chunk = Some (2, 0) \<and>
   toaddr readme_conf 7 gelf_chunk_next = Some (2, 7) \<and>
   (10 :: nat) \<le> 11 \<and>
   map_option fst (toaddr readme_conf 0 (gelf_chunk[11 := 0xFF])) = Some 2"
proof -
  have h: "handle_gelf readme_conf" "nremotes readme_conf \<noteq> 0"
    "12 \<le> length gelf_chunk" "12 \<le> length gelf_chunk_next"
    "take 2 gelf_chunk = gelf_magic" "take 2 gelf_chunk_next = gelf_magic"
    "take 8 (drop 2 gelf_chunk) = take 8 (drop 2 gelf_chunk_next)"
    by (simp_all add: readme_conf_def gelf_chunk_def gelf_chunk_next_def gelf_magic_def)
  have t: "toaddr readme_conf 0 gelf_chunk = Some (2, 0)"
    using h(1,2,3,5) crc8_gelf_chunk by (simp add: toaddr_def) (simp add: readme_conf_def)
  from toaddr_affinity_independent_of_counter_and_tail [OF h, of 0 7] t
  have "toaddr readme_conf 7 gelf_chunk_next = Some (2, 7)"
    and "map_option fst (toaddr readme_conf 0 (gelf_chunk[11 := 0xFF])) = Some 2"
    by auto
  with h t show ?thesis
    by simp
qed

text \<open>
  C5. The claim: when affinity mode is enabled and the payload starts with 0x1E 0x0F, the
  dispatch selects the upstream at index (checksum of payload bytes 2 to 9) mod N, the
  checksum being CRC-8 with polynomial 0x81, and does not advance the counter. The code
  leaves the counter as it was, but the index it selects is \<^verbatim>\<open>crc8\<close> of these bytes modulo
  N, and \<^verbatim>\<open>crc8\<close> is not that checksum (C1): with the three upstreams of the README, the
  chunk with message id 1 is sent to upstream 2 where CRC-8 modulo 3 is 0, and the chunk
  with message id 2 is sent to upstream 1 where CRC-8 modulo 3 is 2.
\<close>

theorem toaddr_affinity_index_is_not_reference_crc8:
  "handle_gelf readme_conf \<and>
   take 2 gelf_chunk = gelf_magic \<and> take 2 gelf_chunk_other = gelf_magic \<and>
   toaddr readme_conf 5 gelf_chunk = Some (2, 5) \<and>
   crc8_reference (take 8 (drop 2 gelf_chunk)) mod nremotes readme_conf = 0 \<and>
   toaddr readme_conf 5 gelf_chunk_other = Some (1, 5) \<and>
   crc8_reference (take 8 (drop 2 gelf_chunk_other)) mod nremotes readme_conf = 2"
proof -
  have ref: "crc8_reference (take 8 (drop 2 gelf_chunk)) = 0x81"
    "crc8_reference (take 8 (drop 2 gelf_chunk_other)) = 0x83"
    by (simp_all add: gelf_chunk_def gelf_chunk_other_def crc8_reference_def crc8_ref_bits_8
        crc8_ref_step_def)
  have code: "crc8 (take 8 (drop 2 gelf_chunk)) = 2"
    "crc8 (take 8 (drop 2 gelf_chunk_other)) = 4"
    by (simp_all add: gelf_chunk_def gelf_chunk_other_def crc8_def crc8_bits_8 crc8_step_def)
  have c: "nremotes readme_conf = 3" "handle_gelf readme_conf"
    by (simp_all add: readme_conf_def)
  have m: "take 2 gelf_chunk = gelf_magic" "length gelf_chunk = 12"
    "take 2 gelf_chunk_other = gelf_magic" "length gelf_chunk_other = 12"
    by (simp_all add: gelf_chunk_def gelf_chunk_other_def gelf_magic_def)
  show ?thesis
    using ref code c m by (simp add: toaddr_def)
qed

text \<open>
  C6, as stated, fails. The claim: starting from counter 0, a sequence of round-robin
  dispatches selects the indices 0, 1, ..., N-1, 0, 1, ... in strict rotation. The counter
  \<^verbatim>\<open>seqnr\<close> is a \<^verbatim>\<open>uint64_t\<close> and wraps from 2^64 - 1 to 0, and 2^64 is not a multiple of
  3: with the three upstreams of the README, the dispatches number 2^64 - 1 and 2^64
  (counted from 0) both select upstream 0, where the rotation asks for upstream
  2^64 mod 3 = 1 at the second of them.
\<close>

theorem rotation_breaks_at_counter_wrap:
  "list_all (round_robin_packet readme_conf) (replicate (2 ^ 64 + 1) (Packet zero_addr plain_payload 12)) \<and>
   map fst (sendto_calls (out (snd (relay_loop readme_conf (world_init readme_env [])
     (replicate (2 ^ 64 + 1) (Packet zero_addr plain_payload 12)))))) ! (2 ^ 64 - 1) = 0 \<and>
   map fst (sendto_calls (out (snd (relay_loop readme_conf (world_init readme_env [])
     (replicate (2 ^ 64 + 1) (Packet zero_addr plain_payload 12)))))) ! (2 ^ 64) = 0 \<and>
   (2 ^ 64) mod unat (nremotes readme_conf) = 1"
proof -
  have h: "nremotes readme_conf \<noteq> 0"
    "list_all (round_robin_packet readme_conf) (replicate (2 ^ 64 + 1) (Packet zero_addr plain_payload 12))"
    by (simp_all add: readme_conf_def list_all_iff affinity_def plain_payload_def gelf_magic_def
        received_def BUFFER_SIZE_def)
  have n: "nremotes readme_conf = 3"
    by (simp add: readme_conf_def)
  have a: "(ucast ((of_nat (2 ^ 64 - 1) :: 64 word) mod 3) :: 8 word) = 0"
    by simp
  have b: "(ucast ((of_nat (2 ^ 64) :: 64 word) mod 3) :: 8 word) = 0"
    by simp
  have i: "map f [0..<2 ^ 64 + 1] ! (2 ^ 64 - 1) = f (2 ^ 64 - 1)"
    "map f [0..<2 ^ 64 + 1] ! (2 ^ 64) = f (2 ^ 64)" for f :: "nat \<Rightarrow> 8 word"
    by (simp_all del: upt_Suc)
  from relay_loop_round_robin [OF h, of "world_init readme_env []"]
  have "map fst (sendto_calls (out (snd (relay_loop readme_conf (world_init readme_env [])
     (replicate (2 ^ 64 + 1) (Packet zero_addr plain_payload 12)))))) =
       map (\<lambda>k. ucast ((of_nat k :: 64 word) mod 3)) [0..<2 ^ 64 + 1]"
    by (simp add: world_init_def n del: upt_Suc replicate_Suc)
  moreover have "(2 ^ 64) mod unat (nremotes readme_conf) = 1"
    by (simp add: n)
  ultimately show ?thesis
    using h(2) a b by (simp only: i)
qed

text \<open>
  C6, amended: a payload that does not take the affinity branch is sent to the index
  counter mod N, and the counter is then incremented by one (modulo 2^64); starting from
  counter 0, a sequence of at most 2^64 such dispatches selects the indices
  0, 1, ..., N-1, 0, 1, ... in strict rotation, whatever the payloads are.
\<close>

theorem round_robin_rotation:
  assumes "nremotes c \<noteq> 0" "list_all (round_robin_packet c) evs"
    and "length evs \<le> 2 ^ 64" "seqnr w = 0"
  shows "(\<forall>p s. 10 \<le> length p \<and> \<not> affinity c p \<longrightarrow>
            (\<exists>i. toaddr c s p = Some (i, s + 1) \<and> unat i = unat s mod unat (nremotes c))) \<and>
         fst (relay_loop c w evs) = Continue \<and>
         map fst (sendto_calls (out (snd (relay_loop c w evs)))) =
           map fst (sendto_calls (out w)) @
           map (\<lambda>k. of_nat (k mod unat (nremotes c))) [0..<length evs]"
proof -
  have "\<exists>i. toaddr c s p = Some (i, s + 1) \<and> unat i = unat s mod unat (nremotes c)"
    if "10 \<le> length p" "\<not> affinity c p" for p s
    using toaddr_total [OF that(1) assms(1), of s] that(2)
    by (simp add: unat_round_robin_index [OF assms(1)])
  moreover
  have "map (\<lambda>k. ucast ((seqnr w + of_nat k) mod ucast (nremotes c)) :: 8 word) [0..<length evs] =
        map (\<lambda>k. of_nat (k mod unat (nremotes c))) [0..<length evs]"
  proof (rule map_cong [OF refl])
    fix k assume "k \<in> set [0..<length evs]"
    then have "k < 2 ^ 64"
      using assms(3) by simp
    from round_robin_index_of_nat [OF assms(1) this]
    show "(ucast ((seqnr w + of_nat k) mod ucast (nremotes c)) :: 8 word) = of_nat (k mod unat (nremotes c))"
      by (simp add: assms(4))
  qed
  ultimately show ?thesis
    using relay_loop_round_robin [OF assms(1,2), of w] by simp
qed

text \<open>
  C6, witness: the README's three upstreams and six payloads without the marker: the
  indices are 0, 1, 2, 0, 1, 2.
\<close>

theorem round_robin_rotation_witness:
  "nremotes readme_conf \<noteq> 0 \<and>
   list_all (round_robin_packet readme_conf) (replicate 6 (Packet zero_addr plain_payload 12)) \<and>
   length (replicate 6 (Packet zero_addr plain_payload 12)) \<le> 2 ^ 64 \<and>
   seqnr (world_init readme_env []) = 0 \<and>
   10 \<le> length plain_payload \<and> \<not> affinity readme_conf plain_payload \<and>
   toaddr readme_conf 4 plain_payload = Some (1, 5) \<and>
   map fst (sendto_calls (out (snd (relay_loop readme_conf (world_init readme_env [])
     (replicate 6 (Packet zero_addr plain_payload 12)))))) = [0, 1, 2, 0, 1, 2]"
proof -
  have h: "nremotes readme_conf \<noteq> 0"
    "list_all (round_robin_packet readme_conf) (replicate 6 (Packet zero_addr plain_payload 12))"
    "length (replicate 6 (Packet zero_addr plain_payload 12)) \<le> 2 ^ 64"
    "seqnr (world_init readme_env []) = 0"
    by (simp_all add: readme_conf_def list_all_iff affinity_def plain_payload_def gelf_magic_def
        received_def BUFFER_SIZE_def world_init_def)
  have p: "10 \<le> length plain_payload" "\<not> affinity readme_conf plain_payload"
    by (simp_all add: affinity_def plain_payload_def gelf_magic_def)
  have t: "toaddr readme_conf 4 plain_payload = Some (1, 5)"
    by (simp add: toaddr_def readme_conf_def plain_payload_def gelf_magic_def)
  have u: "[0..<6] = [0, 1, 2, 3, 4, 5]"
    by (simp add: upt_rec)
  have n: "unat (nremotes readme_conf) = 3"
    by (simp add: readme_conf_def)
  from round_robin_rotation [OF h]
  show ?thesis
    using h p t by (simp add: world_init_def u n)
qed

text \<open>
  C7. A received datagram of fewer than 12 bytes: the iteration prints the bad-packet
  message with the sender and continues with the next \<^verbatim>\<open>recvfrom\<close>; \<^verbatim>\<open>seqnr\<close> is unchanged
  and no \<^verbatim>\<open>sendto\<close> is added. The result does not depend on the configuration: \<^verbatim>\<open>toaddr\<close>
  is not called, and the iteration is defined even when \<^verbatim>\<open>conf.nremotes\<close> is 0.
\<close>

theorem short_datagram_is_discarded:
  assumes "length dgram < 12"
  shows "loop_body c w (Packet sender dgram sendlen) =
           (Continue, w\<lparr>pkt := dgram @ drop (length dgram) (pkt w), from_addr := sender,
                        out := out w @ [Stderr (Bad_packet sender)]\<rparr>) \<and>
         seqnr (snd (loop_body c w (Packet sender dgram sendlen))) = seqnr w \<and>
         sendto_calls (out (snd (loop_body c w (Packet sender dgram sendlen)))) = sendto_calls (out w) \<and>
         relay_loop c w (Packet sender dgram sendlen # evs) =
           relay_loop c (snd (loop_body c w (Packet sender dgram sendlen))) evs"
proof -
  have r: "received dgram = dgram"
    using assms by (rule received_12)
  with assms have "length (received dgram) < 12"
    by simp
  from loop_body_short [OF this, of c w sender sendlen] r
  show ?thesis
    by (simp add: sendto_calls_append)
qed

text \<open>
  C7, witness: a datagram of three bytes, with no upstream configured at all.
\<close>

theorem short_datagram_is_discarded_witness:
  "length [0x1E, 0x0F, 0x00 :: byte] < 12 \<and>
   fst (loop_body conf0 (world_init readme_env []) (Packet zero_addr [0x1E, 0x0F, 0x00] 3)) = Continue \<and>
   out (snd (loop_body conf0 (world_init readme_env []) (Packet zero_addr [0x1E, 0x0F, 0x00] 3)))
     = [Stderr (Bad_packet zero_addr)] \<and>
   seqnr (snd (loop_body conf0 (world_init readme_env []) (Packet zero_addr [0x1E, 0x0F, 0x00] 3))) = 0"
proof -
  have h: "length [0x1E, 0x0F, 0x00 :: byte] < 12"
    by simp
  from short_datagram_is_discarded [OF h, of conf0 "world_init readme_env []" zero_addr 3 "[]"]
  show ?thesis
    by (simp add: world_init_def)
qed

text \<open>
  C8. A datagram of at least 12 bytes for which \<^verbatim>\<open>sendto\<close> returns a value other than
  \<^verbatim>\<open>recvlen\<close>: the iteration prints the \<^verbatim>\<open>sendto\<close> message with the address of the selected
  upstream, and the loop goes on with the remaining answers of the outside.
\<close>

theorem send_mismatch_is_logged_and_loop_continues:
  assumes "12 \<le> length (received dgram)" "nremotes c \<noteq> 0"
    and "sendlen \<noteq> int (length (received dgram))"
  shows "\<exists>sa w1. loop_body c w (Packet sender dgram sendlen) = (Continue, w1) \<and>
           out w1 = out w @ [Sendto sa (received dgram), Stderr (Sendto_error (remotes c sa))] \<and>
           relay_loop c w (Packet sender dgram sendlen # evs) = relay_loop c w1 evs"
proof -
  have "10 \<le> length (received dgram)"
    using assms(1) by simp
  from toaddr_total [OF this assms(2), of "seqnr w"]
  obtain sa s1 where "toaddr c (seqnr w) (received dgram) = Some (sa, s1)"
    by (cases "affinity c (received dgram)") simp_all
  from loop_body_relay [OF assms(1) this, of sender sendlen] assms(3)
  show ?thesis
    by simp
qed

text \<open>
  C8, witness: two datagrams, the first with a short send of 5 bytes. The failure is
  logged with the address of upstream 0, and the second datagram is relayed to
  upstream 1.
\<close>

theorem send_mismatch_is_logged_and_loop_continues_witness:
  "12 \<le> length (received plain_payload) \<and> nremotes readme_conf \<noteq> 0 \<and>
   (5 :: int) \<noteq> int (length (received plain_payload)) \<and>
   relay_loop readme_conf (world_init readme_env [])
     [Packet zero_addr plain_payload 5, Packet zero_addr plain_payload 12] =
   (Continue, \<lparr>seqnr = 2, pkt = plain_payload @ drop 12 (replicate BUFFER_SIZE 0), from_addr = zero_addr,
      out = [Sendto 0 plain_payload,
             Stderr (Sendto_error \<lparr>sin_family = 2, sin_port = 12201, sin_addr = 0x01010101\<rparr>),
             Sendto 1 plain_payload]\<rparr>)"
proof -
  have r: "received plain_payload = plain_payload"
    by (simp add: received_def plain_payload_def BUFFER_SIZE_def)
  have h: "12 \<le> length (received plain_payload)" "nremotes readme_conf \<noteq> 0"
    "(5 :: int) \<noteq> int (length (received plain_payload))"
    by (simp_all add: r) (simp_all add: plain_payload_def readme_conf_def)
  have t0: "toaddr readme_conf 0 plain_payload = Some (0, 1)"
    by (simp add: toaddr_def readme_conf_def plain_payload_def gelf_magic_def)
  have t1: "toaddr readme_conf 1 plain_payload = Some (1, 2)"
    by (simp add: toaddr_def readme_conf_def plain_payload_def gelf_magic_def)
  have l: "length plain_payload = 12"
    by (simp add: plain_payload_def)
  from send_mismatch_is_logged_and_loop_continues [OF h, of "world_init readme_env []" zero_addr
      "[Packet zero_addr plain_payload 12]"]
  obtain sa :: "8 word" and w1 where w1: "loop_body readme_conf (world_init readme_env []) (Packet zero_addr plain_payload 5) = (Continue, w1)"
     "relay_loop readme_conf (world_init readme_env [])
     [Packet zero_addr plain_payload 5, Packet zero_addr plain_payload 12] = relay_loop readme_conf w1 [Packet zero_addr plain_payload 12]"
    by blast
  have "loop_body readme_conf (world_init readme_env []) (Packet zero_addr plain_payload 5) =
     (Continue, \<lparr>seqnr = 1, pkt = plain_payload @ drop 12 (replicate BUFFER_SIZE 0), from_addr = zero_addr,
      out = [Sendto 0 plain_payload,
             Stderr (Sendto_error \<lparr>sin_family = 2, sin_port = 12201, sin_addr = 0x01010101\<rparr>)]\<rparr>)"
    using loop_body_relay [of plain_payload readme_conf "world_init readme_env []" 0 1 zero_addr 5] t0
    by (simp add: r l world_init_def readme_env_def) (simp add: readme_conf_def)
  with w1(1) have "w1 = \<lparr>seqnr = 1, pkt = plain_payload @ drop 12 (replicate BUFFER_SIZE 0), from_addr = zero_addr,
      out = [Sendto 0 plain_payload,
             Stderr (Sendto_error \<lparr>sin_family = 2, sin_port = 12201, sin_addr = 0x01010101\<rparr>)]\<rparr>"
    by simp
  moreover have "loop_body readme_conf \<lparr>seqnr = 1, pkt = plain_payload @ drop 12 (replicate BUFFER_SIZE 0), from_addr = zero_addr,
      out = [Sendto 0 plain_payload,
             Stderr (Sendto_error \<lparr>sin_family = 2, sin_port = 12201, sin_addr = 0x01010101\<rparr>)]\<rparr>
       (Packet zero_addr plain_payload 12) = (Continue, \<lparr>seqnr = 2, pkt = plain_payload @ drop 12 (replicate BUFFER_SIZE 0), from_addr = zero_addr,
      out = [Sendto 0 plain_payload,
             Stderr (Sendto_error \<lparr>sin_family = 2, sin_port = 12201, sin_addr = 0x01010101\<rparr>),
             Sendto 1 plain_payload]\<rparr>)"
    using loop_body_relay [of plain_payload readme_conf _ 1 2 zero_addr 12] t1
    by (simp add: r l)
  ultimately show ?thesis
    using h w1(2) by simp
qed

text \<open>
  C9. With at least one upstream configured: an iteration that receives at least 12
  bytes hands to \<^verbatim>\<open>sendto\<close> exactly the bytes that \<^verbatim>\<open>recvfrom\<close> stored, \<^verbatim>\<open>recvlen\<close> of them
  (the whole datagram when it fits the buffer); and over a run of the loop the byte
  strings handed to \<^verbatim>\<open>sendto\<close> are, in order, the received ones of at least 12 bytes.
\<close>

theorem relay_is_transparent:
  assumes "nremotes c \<noteq> 0"
  shows "(12 \<le> length (received dgram) \<longrightarrow>
           (\<exists>sa w1. loop_body c w (Packet sender dgram sendlen) = (Continue, w1) \<and>
              sendto_calls (out w1) = sendto_calls (out w) @ [(sa, received dgram)] \<and>
              take (nat (snd (recvfrom (pkt w) dgram))) (fst (recvfrom (pkt w) dgram)) = received dgram \<and>
              int (length (received dgram)) = snd (recvfrom (pkt w) dgram))) \<and>
         (length dgram \<le> BUFFER_SIZE \<longrightarrow> received dgram = dgram) \<and>
         map snd (sendto_calls (out (snd (relay_loop c w evs)))) =
           map snd (sendto_calls (out w)) @ relayed evs"
proof -
  have "\<exists>sa w1. loop_body c w (Packet sender dgram sendlen) = (Continue, w1) \<and>
              sendto_calls (out w1) = sendto_calls (out w) @ [(sa, received dgram)]"
    if "12 \<le> length (received dgram)"
    using loop_body_dispatch [OF that assms, of w sender sendlen] by blast
  moreover have "take (nat (snd (recvfrom (pkt w) dgram))) (fst (recvfrom (pkt w) dgram)) = received dgram"
    "int (length (received dgram)) = snd (recvfrom (pkt w) dgram)"
    by (simp_all add: recvfrom_def Let_def)
  ultimately show ?thesis
    using relay_loop_payloads [OF assms, of w evs] received_short [of dgram]
    by simp
qed

text \<open>
  C9, witness: a GELF chunk, a datagram of two bytes and a payload without the marker
  are received; the chunk and the payload are sent on, byte for byte.
\<close>

theorem relay_is_transparent_witness:
  "nremotes readme_conf \<noteq> 0 \<and> 12 \<le> length (received gelf_chunk) \<and> length gelf_chunk \<le> BUFFER_SIZE \<and>
   map snd (sendto_calls (out (snd (relay_loop readme_conf (world_init readme_env [])
     [Packet zero_addr gelf_chunk 12, Packet zero_addr [0x1E, 0x0F] 2,
      Packet zero_addr plain_payload 12])))) = [gelf_chunk, plain_payload]"
proof -
  have h: "nremotes readme_conf \<noteq> 0"
    by (simp add: readme_conf_def)
  have r: "received gelf_chunk = gelf_chunk" "received plain_payload = plain_payload"
    "received [0x1E, 0x0F] = [0x1E, 0x0F]"
    by (simp_all add: received_def gelf_chunk_def plain_payload_def BUFFER_SIZE_def)
  have l: "length gelf_chunk = 12" "length plain_payload = 12"
    by (simp_all add: gelf_chunk_def plain_payload_def)
  from relay_is_transparent [OF h, of gelf_chunk "world_init readme_env []" zero_addr 12
      "[Packet zero_addr gelf_chunk 12, Packet zero_addr [0x1E, 0x0F] 2,
        Packet zero_addr plain_payload 12]"]
  show ?thesis
    using h by (simp add: r l world_init_def BUFFER_SIZE_def)
qed

text \<open>
  C10. The loop is entered only when \<^verbatim>\<open>conf.nremotes\<close> is not 0; with
  \<^verbatim>\<open>conf.nremotes\<close> not 0, \<^verbatim>\<open>toaddr\<close> returns for every counter value and every payload
  (of the ten bytes that it may read, or more), in either branch, an index below
  \<^verbatim>\<open>conf.nremotes\<close>, which is the index of one of the configured upstreams; and no run of
  \<^verbatim>\<open>main\<close> reaches the remainder by zero.
\<close>

theorem toaddr_index_in_range:
  "(startup E argv = Inr (c, os) \<longrightarrow> nremotes c \<noteq> 0) \<and>
   (nremotes c \<noteq> 0 \<and> 10 \<le> length payload \<longrightarrow>
      (\<exists>i s1. toaddr c s payload = Some (i, s1) \<and> unat i < unat (nremotes c))) \<and>
   main E argv evs \<noteq> Undefined os1"
proof -
  have "\<exists>i s1. toaddr c s payload = Some (i, s1) \<and> unat i < unat (nremotes c)"
    if n: "nremotes c \<noteq> 0" and l: "10 \<le> length payload"
  proof -
    have pos: "0 < unat (nremotes c)"
      using n by (simp add: unat_gt_0)
    show ?thesis
    proof (cases "affinity c payload")
      case True
      with toaddr_total [OF l n, of s] pos show ?thesis
        by (simp add: unat_mod)
    next
      case False
      with toaddr_total [OF l n, of s] pos show ?thesis
        by (simp add: unat_round_robin_index [OF n])
    qed
  qed
  then show ?thesis
    using startup_Inr [of E argv c os] main_never_undefined [of E argv evs os1]
    by blast
qed

text \<open>
  C10, witness: the README's configuration passes the startup with three upstreams, and
  a GELF chunk is sent to index 2.
\<close>

theorem toaddr_index_in_range_witness:
  "startup readme_env [''udp-balancer''] = Inr (readme_conf, []) \<and>
   nremotes readme_conf \<noteq> 0 \<and> 10 \<le> length gelf_chunk \<and>
   toaddr readme_conf 0 gelf_chunk = Some (2, 0) \<and> unat (2 :: 8 word) < unat (nremotes readme_conf)"
proof -
  have t: "toaddr readme_conf 0 gelf_chunk = Some (2, 0)"
    by (simp add: toaddr_def readme_conf_def gelf_chunk_def gelf_magic_def crc8_def crc8_bits_8 crc8_step_def)
  have l: "10 \<le> length gelf_chunk"
    by (simp add: gelf_chunk_def)
  from toaddr_index_in_range [of readme_env "[''udp-balancer'']" readme_conf "[]" gelf_chunk 0 "[]" "[]"]
  show ?thesis
    using startup_readme t l by auto
qed

end
